theory Spec2Isabelle
  imports Main "HOL-Library.Log_Nat"
begin

section \<open>The C type \<open>float\<close>\<close>

text \<open>
  Every amount of \<^verbatim>\<open>budget1.cpp\<close> is a C \<^verbatim>\<open>float\<close>: IEEE 754 binary32, 24 bits of
  precision, exponents of the unit in the last place from \<open>-149\<close> to \<open>104\<close>, round to nearest
  with ties to even. The program only adds floats, compares them with \<^verbatim>\<open>>\<close> and
  converts the integer constant \<^verbatim>\<open>0\<close>. A float is modelled by its value: not a number,
  plus or minus infinity, or the rational number a finite float stands for. The two zeros
  of binary32 are one value here: they compare equal and differ only when printed.
  \<open>Finite x\<close> is a float of the machine when \<open>fround x = Finite x\<close>; everything below holds
  for every value of the type, so in particular for those.
\<close>

datatype float = NaN | PInf | NInf | Finite rat

definition pow2 :: "int \<Rightarrow> rat" where
  "pow2 e = (if 0 \<le> e then 2 ^ nat e else 1 / 2 ^ nat (- e))"

text \<open>\<open>ilog2 x\<close> is the integer \<open>k\<close> with \<open>2^k \<le> x < 2^(k+1)\<close>, for a positive \<open>x\<close>.\<close>

definition ilog2 :: "rat \<Rightarrow> int" where
  "ilog2 x = (let (p, q) = quotient_of x; d = bitlen p - bitlen q
              in if pow2 d \<le> x then d else d - 1)"

text \<open>Rounding a non-negative rational to the nearest integer, a tie to the even one.\<close>

definition round_even :: "rat \<Rightarrow> int" where
  "round_even q =
     (let f = \<lfloor>q\<rfloor>; r = q - of_int f
      in if r < 1 / 2 then f else if 1 / 2 < r then f + 1
         else if even f then f else f + 1)"

text \<open>
  Rounding a rational to binary32. The unit in the last place of a number \<open>x\<close> is \<open>2^e\<close>
  with \<open>e = max (ilog2 |x| - 23) (-149)\<close>, the second bound being the subnormal range; the
  magnitude is rounded to a multiple of the unit; a result of \<open>2^128\<close> or more overflows.
\<close>

definition ulp_exp :: "rat \<Rightarrow> int" where
  "ulp_exp x = max (ilog2 \<bar>x\<bar> - 23) (- 149)"

definition fround :: "rat \<Rightarrow> float" where
  "fround x =
     (if x = 0 then Finite 0
      else let e = ulp_exp x;
               y = of_int (round_even (\<bar>x\<bar> / pow2 e)) * pow2 e
           in if 2 ^ 128 \<le> y then (if x < 0 then NInf else PInf)
              else Finite (if x < 0 then - y else y))"

fun float_add :: "float \<Rightarrow> float \<Rightarrow> float" where
  "float_add NaN b = NaN"
| "float_add PInf b = (case b of NaN \<Rightarrow> NaN | NInf \<Rightarrow> NaN | _ \<Rightarrow> PInf)"
| "float_add NInf b = (case b of NaN \<Rightarrow> NaN | PInf \<Rightarrow> NaN | _ \<Rightarrow> NInf)"
| "float_add (Finite x) b =
     (case b of NaN \<Rightarrow> NaN | PInf \<Rightarrow> PInf | NInf \<Rightarrow> NInf | Finite y \<Rightarrow> fround (x + y))"

fun float_less :: "float \<Rightarrow> float \<Rightarrow> bool" where
  "float_less NaN b = False"
| "float_less PInf b = False"
| "float_less NInf b = (case b of NaN \<Rightarrow> False | NInf \<Rightarrow> False | _ \<Rightarrow> True)"
| "float_less (Finite x) b =
     (case b of NaN \<Rightarrow> False | PInf \<Rightarrow> True | NInf \<Rightarrow> False | Finite y \<Rightarrow> x < y)"

fun float_less_eq :: "float \<Rightarrow> float \<Rightarrow> bool" where
  "float_less_eq NaN b = False"
| "float_less_eq PInf b = (b = PInf)"
| "float_less_eq NInf b = (b \<noteq> NaN)"
| "float_less_eq (Finite x) b =
     (case b of NaN \<Rightarrow> False | PInf \<Rightarrow> True | NInf \<Rightarrow> False | Finite y \<Rightarrow> x \<le> y)"

text \<open>
  The C operators \<^verbatim>\<open>+\<close>, \<^verbatim>\<open><\<close>, \<^verbatim>\<open><=\<close> and the constant \<^verbatim>\<open>0\<close> at type float. Only the
  notation is declared: no law of arithmetic comes with these classes.
\<close>

instantiation float :: "{zero, plus, ord}"
begin

definition zero_float :: float where
  "zero_float = Finite 0"

definition plus_float :: "float \<Rightarrow> float \<Rightarrow> float" where
  "plus_float a b = float_add a b"

definition less_float :: "float \<Rightarrow> float \<Rightarrow> bool" where
  "less_float a b = float_less a b"

definition less_eq_float :: "float \<Rightarrow> float \<Rightarrow> bool" where
  "less_eq_float a b = float_less_eq a b"

instance ..

end

text \<open>The value of a finite float, and whether an addition is carried out without rounding.\<close>

fun fval :: "float \<Rightarrow> rat" where
  "fval (Finite x) = x"
| "fval _ = 0"

fun exact_add :: "float \<Rightarrow> float \<Rightarrow> bool" where
  "exact_add (Finite x) (Finite y) = (Finite x + Finite y = Finite (x + y))"
| "exact_add _ _ = False"


section \<open>The data model\<close>

abbreviation MAX_TRANSACTIONS :: int where "MAX_TRANSACTIONS \<equiv> 1000"
abbreviation MAX_CATEGORIES :: int where "MAX_CATEGORIES \<equiv> 50"
abbreviation MAX_NOTIFICATIONS :: int where "MAX_NOTIFICATIONS \<equiv> 50"

text \<open>
  The structs, field by field. A \<^verbatim>\<open>char\<close> buffer is the C string it holds, \<^verbatim>\<open>time_t\<close> and
  \<^verbatim>\<open>int\<close> are integers: the counters stay between 0 and 1000 and no \<^verbatim>\<open>int\<close> of the
  program is ever incremented past that, so no arithmetic wraps. The flags \<open>is_income\<close> and
  \<open>is_read\<close> are the \<^verbatim>\<open>int\<close>s of the source, 0 for false.
\<close>

record Notification =
  message :: string
  timestamp :: int
  is_read :: int

record Category =
  name :: string
  budget_limit :: float
  current_spent :: float

record Transaction =
  amount :: float
  description :: string
  category :: string
  timestamp :: int
  is_income :: int

text \<open>
  An array is the function from its indices to its elements. \<^verbatim>\<open>main\<close> declares the tracker
  as a local variable without an initialiser, so the memory an operation finds is
  arbitrary wherever the program has not written yet.
\<close>

record BudgetTracker =
  transactions :: "int \<Rightarrow> Transaction"
  categories :: "int \<Rightarrow> Category"
  notifications :: "int \<Rightarrow> Notification"
  transaction_count :: int
  category_count :: int
  notification_count :: int
  total_income :: float
  total_expenses :: float


section \<open>Input and output\<close>

text \<open>
  The operations read the terminal and print to it. What is read is a parameter of the
  model: the float \<^verbatim>\<open>get_float_input\<close> returns, the value \<^verbatim>\<open>scanf("%d", ...)\<close> leaves in
  its variable, the line \<^verbatim>\<open>get_string_input\<close> leaves in its buffer, the time
  \<^verbatim>\<open>time(NULL)\<close> returns. What is printed and which reads take place is the trace an
  operation returns, a list of events in the order of the calls; a \<^verbatim>\<open>printf\<close> is kept as
  its format string and its arguments. An event \<open>Get_float_input\<close> stands for the whole call
  of the helper, which asks again until \<^verbatim>\<open>scanf\<close> has read a number: the model describes
  the calls in which every read returns. The loop of \<^verbatim>\<open>main_menu\<close>, which reads a number
  and calls one of the operations below, is not part of the model.
\<close>

datatype arg = D int | S string | F float

datatype event =
  Printf string "arg list"
| Get_float_input string
| Scanf_d
| Get_string_input string


section \<open>The operations\<close>

subsection \<open>\<^verbatim>\<open>init_tracker\<close>\<close>

definition default_categories :: "string list" where
  "default_categories =
     [''Salary'', ''Freelance'', ''Investments'',
      ''Food'', ''Transport'', ''Utilities'', ''Rent'', ''Entertainment'']"

text \<open>The loop over \<^verbatim>\<open>default_categories\<close>, \<open>i\<close> the index of the head of what is left.\<close>

fun init_loop :: "int \<Rightarrow> string list \<Rightarrow> BudgetTracker \<Rightarrow> BudgetTracker" where
  "init_loop i [] tracker = tracker"
| "init_loop i (d # ds) tracker =
     init_loop (i + 1) ds
       (tracker\<lparr>categories := (categories tracker)
                   (i := (categories tracker i)\<lparr>name := d, budget_limit := 0, current_spent := 0\<rparr>),
                category_count := category_count tracker + 1\<rparr>)"

definition init_tracker :: "BudgetTracker \<Rightarrow> BudgetTracker" where
  "init_tracker tracker0 =
     (let tracker = tracker0\<lparr>transaction_count := 0, category_count := 0,
                             notification_count := 0, total_income := 0, total_expenses := 0\<rparr>;
          tracker = init_loop 0 default_categories tracker;
          n = notification_count tracker
      in tracker\<lparr>notifications := (notifications tracker)
                    (n := (notifications tracker n)
                            \<lparr>message := ''Tracker initialized with default categories.''\<rparr>),
                 notification_count := n + 1\<rparr>)"

subsection \<open>\<^verbatim>\<open>add_income\<close>\<close>

definition add_income ::
  "float \<Rightarrow> string \<Rightarrow> int \<Rightarrow> BudgetTracker \<Rightarrow> event list \<times> BudgetTracker" where
  "add_income amount_read description_read now tracker =
     (if MAX_TRANSACTIONS \<le> transaction_count tracker
      then ([Printf ''Transaction limit reached!\<newline>'' []], tracker)
      else
        let i = transaction_count tracker;
            t = (transactions tracker i)\<lparr>amount := amount_read\<rparr>;
            t = t\<lparr>description := description_read\<rparr>;
            t = t\<lparr>category := ''Income''\<rparr>;
            t = t\<lparr>timestamp := now\<rparr>;
            t = t\<lparr>is_income := 1\<rparr>
        in ([Get_float_input ''Enter income amount: '',
             Get_string_input ''Enter income description: '',
             Printf ''Income added successfully!\<newline>'' []],
            tracker\<lparr>transactions := (transactions tracker)(i := t),
                    total_income := total_income tracker + amount t,
                    transaction_count := transaction_count tracker + 1\<rparr>))"

subsection \<open>\<^verbatim>\<open>add_expense\<close>\<close>

definition category_menu :: "BudgetTracker \<Rightarrow> event list" where
  "category_menu tracker =
     map (\<lambda>i. Printf ''%d. %s\<newline>'' [D (i + 1), S (name (categories tracker i))])
         [0 .. category_count tracker - 1]"

definition add_expense ::
  "float \<Rightarrow> int \<Rightarrow> string \<Rightarrow> int \<Rightarrow> BudgetTracker \<Rightarrow> event list \<times> BudgetTracker" where
  "add_expense amount_read category_choice description_read now tracker =
     (if MAX_TRANSACTIONS \<le> transaction_count tracker
      then ([Printf ''Transaction limit reached!\<newline>'' []], tracker)
      else
        let i = transaction_count tracker;
            t = (transactions tracker i)\<lparr>amount := amount_read\<rparr>;
            out = [Get_float_input ''Enter expense amount: '',
                   Printf ''Select category:\<newline>'' []] @ category_menu tracker @ [Scanf_d]
        in if category_choice < 1 \<or> category_count tracker < category_choice
           then (out @ [Printf ''Invalid category. Expense not recorded.\<newline>'' []],
                 tracker\<lparr>transactions := (transactions tracker)(i := t)\<rparr>)
           else
             let c = category_choice - 1;
                 t = t\<lparr>category := name (categories tracker c)\<rparr>;
                 cat = (categories tracker c)
                         \<lparr>current_spent := current_spent (categories tracker c) + amount t\<rparr>;
                 out = out @
                   (if 0 < budget_limit cat \<and> budget_limit cat < current_spent cat
                    then [Printf ''Warning: You exceeded the budget for %s!\<newline>'' [S (name cat)]]
                    else []);
                 t = t\<lparr>description := description_read\<rparr>;
                 t = t\<lparr>timestamp := now\<rparr>;
                 t = t\<lparr>is_income := 0\<rparr>
             in (out @ [Get_string_input ''Enter expense description: '',
                        Printf ''Expense added successfully!\<newline>'' []],
                 tracker\<lparr>transactions := (transactions tracker)(i := t),
                         categories := (categories tracker)(c := cat),
                         total_expenses := total_expenses tracker + amount t,
                         transaction_count := transaction_count tracker + 1\<rparr>))"


subsection \<open>\<^verbatim>\<open>view_transactions\<close>\<close>

definition view_transactions :: "BudgetTracker \<Rightarrow> event list" where
  "view_transactions tracker =
     (if transaction_count tracker = 0 then [Printf ''No transactions recorded.\<newline>'' []]
      else
        [Printf ''Transactions:\<newline>'' [],
         Printf ''%-20s %-10s %-12s %-30s\<newline>''
           [S ''Category'', S ''Amount'', S ''Type'', S ''Description''],
         Printf ''-------------------------------------------------------------\<newline>'' []] @
        map (\<lambda>i. let t = transactions tracker i
                  in Printf ''%-20s $%-9.2f %-12s %-30s\<newline>''
                       [S (category t), F (amount t),
                        S (if is_income t \<noteq> 0 then ''Income'' else ''Expense''),
                        S (description t)])
            [0 .. transaction_count tracker - 1])"

subsection \<open>\<^verbatim>\<open>set_budget\<close>\<close>

text \<open>
  The loop asks one float for each category; \<open>answers i\<close> is what \<^verbatim>\<open>get_float_input\<close>
  returns in the iteration for index \<open>i\<close>.
\<close>

function set_budget_loop ::
  "(int \<Rightarrow> float) \<Rightarrow> int \<Rightarrow> event list \<Rightarrow> BudgetTracker \<Rightarrow> event list \<times> BudgetTracker" where
  "set_budget_loop answers i out tracker =
     (if i < category_count tracker
      then set_budget_loop answers (i + 1)
             (out @ [Printf ''%s: Current limit $%.2f\<newline>''
                       [S (name (categories tracker i)), F (budget_limit (categories tracker i))],
                     Get_float_input ''Enter new budget limit (0 for no limit): ''])
             (tracker\<lparr>categories := (categories tracker)
                         (i := (categories tracker i)\<lparr>budget_limit := answers i\<rparr>)\<rparr>)
      else (out, tracker))"
  by pat_completeness auto
termination
  by (relation "measure (\<lambda>(answers, i, out, tracker). nat (category_count tracker - i))") auto

declare set_budget_loop.simps [simp del]

definition set_budget :: "(int \<Rightarrow> float) \<Rightarrow> BudgetTracker \<Rightarrow> event list \<times> BudgetTracker" where
  "set_budget answers tracker =
     (let (out, tracker) =
            set_budget_loop answers 0 [Printf ''Set budget limits for categories:\<newline>'' []] tracker
      in (out @ [Printf ''Budget limits updated.\<newline>'' []], tracker))"

subsection \<open>\<^verbatim>\<open>add_notification\<close>\<close>

text \<open>
  \<^verbatim>\<open>strncpy(n->message, message, 99)\<close> writes the first 99 bytes of the buffer of 100: the
  message, cut after 99 characters or filled up with zero bytes. The text these 99 bytes
  hold is what the field \<open>message\<close> of the model stands for. The call never writes the last
  byte of the buffer; a message of fewer than 99 characters is terminated within the 99.
\<close>

definition strncpy :: "string \<Rightarrow> nat \<Rightarrow> string" where
  "strncpy src n = take n src"

text \<open>The loop that moves every notification one place down.\<close>

function shift_loop :: "int \<Rightarrow> (int \<Rightarrow> Notification) \<Rightarrow> (int \<Rightarrow> Notification)" where
  "shift_loop i ns =
     (if i < MAX_NOTIFICATIONS - 1 then shift_loop (i + 1) (ns(i := ns (i + 1))) else ns)"
  by pat_completeness auto
termination
  by (relation "measure (\<lambda>(i, ns). nat (MAX_NOTIFICATIONS - 1 - i))") auto

declare shift_loop.simps [simp del]

definition add_notification :: "string \<Rightarrow> int \<Rightarrow> BudgetTracker \<Rightarrow> BudgetTracker" where
  "add_notification message_arg now tracker0 =
     (let tracker =
            (if MAX_NOTIFICATIONS \<le> notification_count tracker0
             then tracker0\<lparr>notifications := shift_loop 0 (notifications tracker0),
                           notification_count := notification_count tracker0 - 1\<rparr>
             else tracker0);
          i = notification_count tracker;
          n = (notifications tracker i)\<lparr>message := strncpy message_arg 99\<rparr>;
          n = n\<lparr>Notification.timestamp := now\<rparr>;
          n = n\<lparr>is_read := 0\<rparr>
      in tracker\<lparr>notifications := (notifications tracker)(i := n),
                 notification_count := i + 1\<rparr>)"

subsection \<open>\<^verbatim>\<open>view_notifications\<close>\<close>

definition view_notifications :: "BudgetTracker \<Rightarrow> event list" where
  "view_notifications tracker =
     (if notification_count tracker = 0 then [Printf ''No notifications available.\<newline>'' []]
      else Printf ''Notifications:\<newline>'' [] #
           map (\<lambda>i. Printf ''%s\<newline>'' [S (message (notifications tracker i))])
               [0 .. notification_count tracker - 1])"


section \<open>What the ledger holds\<close>

text \<open>
  The entries an array holds are those below its counter, in the order of the indices:
  the loops of \<^verbatim>\<open>view_transactions\<close>, \<^verbatim>\<open>add_expense\<close>, \<^verbatim>\<open>set_budget\<close> and
  \<^verbatim>\<open>view_notifications\<close> visit exactly these.
\<close>

definition transaction_list :: "BudgetTracker \<Rightarrow> Transaction list" where
  "transaction_list tracker = map (transactions tracker) [0 .. transaction_count tracker - 1]"

definition category_list :: "BudgetTracker \<Rightarrow> Category list" where
  "category_list tracker = map (categories tracker) [0 .. category_count tracker - 1]"

definition notification_list :: "BudgetTracker \<Rightarrow> Notification list" where
  "notification_list tracker =
     map (notifications tracker) [0 .. notification_count tracker - 1]"

text \<open>
  The sum of a list of floats as a program computes it: from \<open>0\<close>, adding the elements
  from left to right, every addition rounding.
\<close>

definition float_sum :: "float list \<Rightarrow> float" where
  "float_sum xs = foldl (+) 0 xs"

definition income_amounts :: "BudgetTracker \<Rightarrow> float list" where
  "income_amounts tracker =
     map amount (filter (\<lambda>t. is_income t \<noteq> 0) (transaction_list tracker))"

definition expense_amounts :: "BudgetTracker \<Rightarrow> float list" where
  "expense_amounts tracker =
     map amount (filter (\<lambda>t. is_income t = 0) (transaction_list tracker))"

text \<open>The invariant of the two totals.\<close>

definition totals_ok :: "BudgetTracker \<Rightarrow> bool" where
  "totals_ok tracker \<longleftrightarrow>
     0 \<le> transaction_count tracker \<and>
     total_income tracker = float_sum (income_amounts tracker) \<and>
     total_expenses tracker = float_sum (expense_amounts tracker)"

text \<open>The over-budget warning of \<^verbatim>\<open>add_expense\<close> in a trace.\<close>

fun is_warning :: "event \<Rightarrow> bool" where
  "is_warning (Printf fmt args) = (fmt = ''Warning: You exceeded the budget for %s!\<newline>'')"
| "is_warning _ = False"

definition budget_exceeded :: "event list \<Rightarrow> bool" where
  "budget_exceeded out = list_ex is_warning out"


section \<open>Sequences of calls\<close>

text \<open>The notification a call of \<^verbatim>\<open>add_notification\<close> stores, and a series of such calls.\<close>

definition notification_of :: "string \<times> int \<Rightarrow> Notification" where
  "notification_of p = \<lparr>message = strncpy (fst p) 99, timestamp = snd p, is_read = 0\<rparr>"

fun push_all :: "(string \<times> int) list \<Rightarrow> BudgetTracker \<Rightarrow> BudgetTracker" where
  "push_all [] tracker = tracker"
| "push_all (p # ps) tracker = push_all ps (add_notification (fst p) (snd p) tracker)"

definition keep_last :: "nat \<Rightarrow> 'a list \<Rightarrow> 'a list" where
  "keep_last k xs = drop (length xs - k) xs"

text \<open>The operations that change the tracker, with what each reads.\<close>

datatype call =
  Add_income float string int
| Add_expense float int string int
| Set_budget "int \<Rightarrow> float"
| Add_notification string int

fun exec :: "call \<Rightarrow> BudgetTracker \<Rightarrow> BudgetTracker" where
  "exec (Add_income a d now) tracker = snd (add_income a d now tracker)"
| "exec (Add_expense a c d now) tracker = snd (add_expense a c d now tracker)"
| "exec (Set_budget answers) tracker = snd (set_budget answers tracker)"
| "exec (Add_notification m now) tracker = add_notification m now tracker"

fun run :: "call list \<Rightarrow> BudgetTracker \<Rightarrow> BudgetTracker" where
  "run [] tracker = tracker"
| "run (c # cs) tracker = run cs (exec c tracker)"

text \<open>\<open>every_call P calls tracker\<close>: each call of the run satisfies \<open>P\<close> in the state it starts from.\<close>

fun every_call :: "(call \<Rightarrow> BudgetTracker \<Rightarrow> bool) \<Rightarrow> call list \<Rightarrow> BudgetTracker \<Rightarrow> bool" where
  "every_call P [] tracker = True"
| "every_call P (c # cs) tracker = (P c tracker \<and> every_call P cs (exec c tracker))"

text \<open>
  The two additions of a recorded expense are exact: the operands are finite and the float
  sum is the sum of the numbers. Calls that add nothing to a category round nothing.
\<close>

fun rounds_nothing :: "call \<Rightarrow> BudgetTracker \<Rightarrow> bool" where
  "rounds_nothing (Add_expense a c d now) tracker =
     (if transaction_count tracker < 1000 \<and> 1 \<le> c \<and> c \<le> category_count tracker
      then exact_add (current_spent (categories tracker (c - 1))) a \<and>
           exact_add (total_expenses tracker) a
      else True)"
| "rounds_nothing _ tracker = True"

text \<open>The numbers a call reads for an expense or for the limits are not negative.\<close>

fun nonneg_inputs :: "call \<Rightarrow> BudgetTracker \<Rightarrow> bool" where
  "nonneg_inputs (Add_expense a c d now) tracker = (0 \<le> a)"
| "nonneg_inputs (Set_budget answers) tracker =
     list_all (\<lambda>i. 0 \<le> answers i) [0 .. category_count tracker - 1]"
| "nonneg_inputs _ tracker = True"

text \<open>The sum of the numbers the categories' \<open>current_spent\<close> stand for, without rounding.\<close>

fun is_finite :: "float \<Rightarrow> bool" where
  "is_finite (Finite x) = True"
| "is_finite _ = False"

definition spent_sum :: "BudgetTracker \<Rightarrow> rat" where
  "spent_sum tracker = sum_list (map (\<lambda>c. fval (current_spent c)) (category_list tracker))"

definition spent_exact :: "BudgetTracker \<Rightarrow> bool" where
  "spent_exact tracker \<longleftrightarrow>
     total_expenses tracker = Finite (spent_sum tracker) \<and>
     list_all (\<lambda>c. is_finite (current_spent c)) (category_list tracker)"

definition categories_nonneg :: "BudgetTracker \<Rightarrow> bool" where
  "categories_nonneg tracker =
     list_all (\<lambda>c. 0 \<le> current_spent c \<and> 0 \<le> budget_limit c) (category_list tracker)"


section \<open>Example data\<close>

text \<open>Memory filled with zero bytes, and a ledger filled by \<open>n\<close> incomes.\<close>

definition zero_memory :: BudgetTracker where
  "zero_memory =
     \<lparr>transactions =
        (\<lambda>i. \<lparr>amount = 0, description = [], category = [], timestamp = 0, is_income = 0\<rparr>),
      categories = (\<lambda>i. \<lparr>name = [], budget_limit = 0, current_spent = 0\<rparr>),
      notifications = (\<lambda>i. \<lparr>message = [], timestamp = 0, is_read = 0\<rparr>),
      transaction_count = 0, category_count = 0, notification_count = 0,
      total_income = 0, total_expenses = 0\<rparr>"

definition incomes :: "nat \<Rightarrow> BudgetTracker \<Rightarrow> BudgetTracker" where
  "incomes n tracker = ((\<lambda>t. snd (add_income (Finite 1) ''pay'' 0 t)) ^^ n) tracker"

text \<open>
  The user who answers every prompt of \<^verbatim>\<open>set_budget\<close> with the same number; a fresh
  ledger where every limit was set to \<open>-5\<close>; and a ledger where every limit is 100 and 90
  was spent on Food, the fourth category.
\<close>

definition answer_all :: "float \<Rightarrow> int \<Rightarrow> float" where
  "answer_all x i = x"

definition negative_limits :: BudgetTracker where
  "negative_limits = snd (set_budget (answer_all (Finite (- 5))) (init_tracker zero_memory))"

definition food_at_ninety :: BudgetTracker where
  "food_at_ninety =
     snd (add_expense (Finite 90) 4 ''shop'' 1
            (snd (set_budget (answer_all (Finite 100)) (init_tracker zero_memory))))"

text \<open>
  Three expenses whose total needs more than 24 bits; a run with a negative limit and a
  negative amount; and a run of all four operations with numbers that are not negative.
\<close>

definition rounding_calls :: "call list" where
  "rounding_calls =
     [Add_expense (Finite 16777216) 1 ''bond'' 1,
      Add_expense (Finite 1) 2 ''pen'' 2,
      Add_expense (Finite 1) 2 ''ink'' 3]"

definition negative_calls :: "call list" where
  "negative_calls =
     [Set_budget (answer_all (Finite (- 5))), Add_expense (Finite (- 10)) 4 ''refund'' 2]"

definition sample_calls :: "call list" where
  "sample_calls =
     [Set_budget (answer_all (Finite 100)),
      Add_expense (Finite 90) 4 ''shop'' 1,
      Add_income (Finite 50) ''bonus'' 2,
      Add_expense (Finite 30) 9 ''lost'' 3,
      Add_notification ''note'' 4,
      Add_expense (Finite 20) 4 ''meal'' 5]"

text \<open>Fifty-one notifications, told apart by their time stamps.\<close>

definition fifty_one :: "(string \<times> int) list" where
  "fifty_one = map (\<lambda>k. (''note'', int k)) [0 ..< 51]"


section \<open>Auxiliary facts\<close>

subsection \<open>The rounding function\<close>

text \<open>
  \<open>ilog2\<close> is the binary logarithm rounded down; \<open>round_even\<close> stays within one half of its
  argument; so \<open>fround x\<close>, when finite, is within half a unit in the last place of \<open>x\<close>, and
  it is a binary32 number: an integer of at most 24 bits times a power of two between
  \<open>2^-149\<close> and \<open>2^104\<close>. Integers up to \<open>2^24\<close> in magnitude are such numbers and round to
  themselves.
\<close>

lemma pow2_pos: "0 < pow2 e"
  by (simp add: pow2_def)

lemma round_even_nonneg: "0 \<le> q \<Longrightarrow> 0 \<le> round_even q"
  by (auto simp add: round_even_def Let_def)

lemma pow2_powi: "pow2 e = 2 powi e"
  by (simp add: pow2_def power_int_def inverse_eq_divide power_one_over)

lemma pow2_add: "pow2 (a + b) = pow2 a * pow2 b"
  by (simp add: pow2_powi power_int_add)

lemma pow2_mono: "a \<le> b \<Longrightarrow> pow2 a \<le> pow2 b"
  by (simp add: pow2_powi power_int_increasing)

lemma pow2_strict_mono: "a < b \<Longrightarrow> pow2 a < pow2 b"
  by (simp add: pow2_powi power_int_strict_increasing)

lemma pow2_nat: "pow2 (int n) = 2 ^ n"
  by (simp add: pow2_def)

lemma ilog2_bounds:
  assumes "0 < x"
  shows "pow2 (ilog2 x) \<le> x \<and> x < pow2 (ilog2 x + 1)"
proof -
  obtain p q where pq: "quotient_of x = (p, q)" by (cases "quotient_of x")
  then have q: "0 < q" and x: "x = of_int p / of_int q"
    by (simp_all add: quotient_of_denom_pos quotient_of_div)
  with assms have p: "0 < p" by (simp add: zero_less_divide_iff)
  define d where "d = bitlen p - bitlen q"
  from bitlen_bounds [OF p] have pb: "2 ^ nat (bitlen p - 1) \<le> p" "p < 2 ^ nat (bitlen p)" by simp_all
  from bitlen_bounds [OF q] have qb: "2 ^ nat (bitlen q - 1) \<le> q" "q < 2 ^ nat (bitlen q)" by simp_all
  have bp: "1 \<le> bitlen p" using p bitlen_eq_zero_iff [of p] bitlen_nonneg [of p] by linarith
  have bq: "1 \<le> bitlen q" using q bitlen_eq_zero_iff [of q] bitlen_nonneg [of q] by linarith
  have P1: "pow2 (bitlen p - 1) \<le> of_int p"
  proof -
    have "rat_of_int (2 ^ nat (bitlen p - 1)) \<le> of_int p" using pb(1) by (simp only: of_int_le_iff)
    moreover have "pow2 (bitlen p - 1) = 2 ^ nat (bitlen p - 1)" using bp by (simp add: pow2_def)
    ultimately show ?thesis by simp
  qed
  have P2: "of_int p < pow2 (bitlen p)"
  proof -
    have "rat_of_int p < of_int (2 ^ nat (bitlen p))" using pb(2) by (simp only: of_int_less_iff)
    moreover have "pow2 (bitlen p) = 2 ^ nat (bitlen p)" using bp by (simp add: pow2_def)
    ultimately show ?thesis by simp
  qed
  have Q1: "pow2 (bitlen q - 1) \<le> of_int q"
  proof -
    have "rat_of_int (2 ^ nat (bitlen q - 1)) \<le> of_int q" using qb(1) by (simp only: of_int_le_iff)
    moreover have "pow2 (bitlen q - 1) = 2 ^ nat (bitlen q - 1)" using bq by (simp add: pow2_def)
    ultimately show ?thesis by simp
  qed
  have Q2: "of_int q < pow2 (bitlen q)"
  proof -
    have "rat_of_int q < of_int (2 ^ nat (bitlen q))" using qb(2) by (simp only: of_int_less_iff)
    moreover have "pow2 (bitlen q) = 2 ^ nat (bitlen q)" using bq by (simp add: pow2_def)
    ultimately show ?thesis by simp
  qed
  have qpos: "0 < rat_of_int q" using q by simp
  have upper: "x < pow2 (d + 1)"
  proof -
    have "of_int p < pow2 (d + 1) * pow2 (bitlen q - 1)"
      using P2 by (simp add: d_def flip: pow2_add)
    also have "\<dots> \<le> pow2 (d + 1) * of_int q"
      using Q1 pow2_pos [of "d + 1"] by simp
    finally show ?thesis using qpos by (simp add: x pos_divide_less_eq)
  qed
  have lower: "pow2 (d - 1) < x"
  proof -
    have "pow2 (d - 1) * of_int q < pow2 (d - 1) * pow2 (bitlen q)"
      using Q2 pow2_pos [of "d - 1"] by simp
    also have "\<dots> = pow2 (bitlen p - 1)" by (simp add: d_def flip: pow2_add)
    also have "\<dots> \<le> of_int p" by (rule P1)
    finally show ?thesis using qpos by (simp add: x pos_less_divide_eq)
  qed
  have il: "ilog2 x = (if pow2 d \<le> x then d else d - 1)"
    by (simp add: ilog2_def pq d_def Let_def)
  show ?thesis
  proof (cases "pow2 d \<le> x")
    case True
    with upper il show ?thesis by simp
  next
    case False
    with lower il show ?thesis by simp
  qed
qed

lemma round_even_close: "\<bar>of_int (round_even q) - q\<bar> \<le> 1 / 2"
proof -
  define r where "r = q - of_int \<lfloor>q\<rfloor>"
  have r: "0 \<le> r" "r < 1" unfolding r_def by linarith+
  have q: "q = of_int \<lfloor>q\<rfloor> + r" by (simp add: r_def)
  consider "r < 1 / 2" | "1 / 2 < r" | "r = 1 / 2" by linarith
  then show ?thesis
  proof cases
    case 1
    then have "round_even q = \<lfloor>q\<rfloor>" by (simp add: round_even_def Let_def r_def)
    with 1 r show ?thesis by (simp add: r_def)
  next
    case 2
    then have "round_even q = \<lfloor>q\<rfloor> + 1" by (simp add: round_even_def Let_def r_def)
    with 2 r show ?thesis by (simp add: r_def abs_if)
  next
    case 3
    then have "round_even q = \<lfloor>q\<rfloor> \<or> round_even q = \<lfloor>q\<rfloor> + 1"
      by (simp add: round_even_def Let_def r_def)
    with 3 show ?thesis by (auto simp add: r_def abs_if)
  qed
qed

lemma round_even_mono_bound:
  assumes "q \<le> of_int n"
  shows "round_even q \<le> n"
proof -
  have "\<lfloor>q\<rfloor> \<le> n" using assms by (simp add: floor_le_iff)
  show ?thesis
  proof (cases "\<lfloor>q\<rfloor> = n")
    case True
    then have "q = of_int n" using assms by (metis antisym of_int_floor_le)
    then show ?thesis by (simp add: round_even_def)
  next
    case False
    with \<open>\<lfloor>q\<rfloor> \<le> n\<close> have "\<lfloor>q\<rfloor> + 1 \<le> n" by simp
    then show ?thesis using \<open>\<lfloor>q\<rfloor> \<le> n\<close> by (auto simp add: round_even_def Let_def)
  qed
qed

lemma round_even_ge:
  assumes "of_int n \<le> q"
  shows "n \<le> round_even q"
proof -
  have "n \<le> \<lfloor>q\<rfloor>" using assms by (simp add: le_floor_iff)
  then show ?thesis by (auto simp add: round_even_def Let_def)
qed

lemma fround_unfold:
  assumes "x \<noteq> 0"
  shows "fround x =
    (if 2 ^ 128 \<le> of_int (round_even (\<bar>x\<bar> / pow2 (ulp_exp x))) * pow2 (ulp_exp x)
     then (if x < 0 then NInf else PInf)
     else Finite ((if x < 0 then - 1 else 1) *
                    (of_int (round_even (\<bar>x\<bar> / pow2 (ulp_exp x))) * pow2 (ulp_exp x))))"
  using assms by (simp add: fround_def Let_def)

lemma fround_close:
  assumes "fround x = Finite y"
  shows "\<bar>y - x\<bar> \<le> pow2 (ulp_exp x) / 2"
proof (cases "x = 0")
  case True
  with assms show ?thesis using pow2_pos [of "ulp_exp 0"] by (simp add: fround_def)
next
  case False
  define e where "e = ulp_exp x"
  define m where "m = round_even (\<bar>x\<bar> / pow2 e)"
  have e: "0 < pow2 e" by (rule pow2_pos)
  have "\<bar>of_int m - \<bar>x\<bar> / pow2 e\<bar> \<le> 1 / 2" unfolding m_def by (rule round_even_close)
  then have "\<bar>of_int m - \<bar>x\<bar> / pow2 e\<bar> * pow2 e \<le> 1 / 2 * pow2 e"
    using e by (intro mult_right_mono) simp_all
  also have "\<bar>of_int m - \<bar>x\<bar> / pow2 e\<bar> * pow2 e = \<bar>(of_int m - \<bar>x\<bar> / pow2 e) * pow2 e\<bar>"
    using e by (simp add: abs_mult)
  also have "(of_int m - \<bar>x\<bar> / pow2 e) * pow2 e = of_int m * pow2 e - \<bar>x\<bar>"
    using e by (simp add: algebra_simps)
  finally have close: "\<bar>of_int m * pow2 e - \<bar>x\<bar>\<bar> \<le> pow2 e / 2" by simp
  from assms False have y: "y = (if x < 0 then - 1 else 1) * (of_int m * pow2 e)"
    by (simp add: fround_unfold e_def m_def split: if_splits)
  show ?thesis
  proof (cases "x < 0")
    case True
    with y have "y - x = - (of_int m * pow2 e - \<bar>x\<bar>)" by simp
    with close show ?thesis by (simp add: e_def del: abs_minus_cancel add: abs_minus_commute)
  next
    case False
    with y have "y - x = of_int m * pow2 e - \<bar>x\<bar>" by simp
    with close show ?thesis by (simp add: e_def)
  qed
qed

lemma fround_form:
  assumes "fround x = Finite y"
  shows "\<exists>m e. y = of_int m * pow2 e \<and> \<bar>m\<bar> \<le> 2 ^ 24 \<and> - 149 \<le> e \<and> e \<le> 104"
proof (cases "x = 0")
  case True
  with assms have "y = of_int 0 * pow2 0" by (simp add: fround_def)
  then show ?thesis by (intro exI [of _ 0] exI [of _ "0::int"]) simp
next
  case False
  define e where "e = ulp_exp x"
  define m where "m = round_even (\<bar>x\<bar> / pow2 e)"
  have epos: "0 < pow2 e" by (rule pow2_pos)
  have ax: "0 < \<bar>x\<bar>" using False by simp
  from ilog2_bounds [OF ax] have lo: "pow2 (ilog2 \<bar>x\<bar>) \<le> \<bar>x\<bar>" and hi: "\<bar>x\<bar> < pow2 (ilog2 \<bar>x\<bar> + 1)"
    by simp_all
  have e1: "ilog2 \<bar>x\<bar> - 23 \<le> e" and e2: "- 149 \<le> e" by (simp_all add: e_def ulp_exp_def)
  from assms False have y: "y = (if x < 0 then - 1 else 1) * (of_int m * pow2 e)"
    and small: "of_int m * pow2 e < 2 ^ 128"
    by (simp_all add: fround_unfold e_def m_def split: if_splits)
  have m0: "0 \<le> m" unfolding m_def using epos by (intro round_even_nonneg) simp
  have "\<bar>x\<bar> / pow2 e < pow2 (ilog2 \<bar>x\<bar> + 1) / pow2 e"
    using hi epos by (simp add: divide_strict_right_mono)
  also have "\<dots> = pow2 (ilog2 \<bar>x\<bar> + 1 - e)"
    using pow2_add [of "ilog2 \<bar>x\<bar> + 1 - e" e] epos by (simp add: field_simps)
  also have "\<dots> \<le> pow2 24" using e1 by (intro pow2_mono) simp
  also have "pow2 24 = of_int (2 ^ 24)" by (simp add: pow2_def)
  finally have "\<bar>x\<bar> / pow2 e \<le> of_int (2 ^ 24)" by simp
  then have m24: "m \<le> 2 ^ 24" unfolding m_def by (rule round_even_mono_bound)
  have e104: "e \<le> 104"
  proof (rule ccontr)
    assume "\<not> e \<le> 104"
    then have big: "105 \<le> e" by simp
    then have "e = ilog2 \<bar>x\<bar> - 23" by (simp add: e_def ulp_exp_def max_def split: if_splits)
    then have "pow2 (e + 23) \<le> \<bar>x\<bar>" using lo by simp
    then have "pow2 23 * pow2 e \<le> \<bar>x\<bar>" by (simp add: pow2_add mult.commute)
    then have "pow2 23 \<le> \<bar>x\<bar> / pow2 e" using epos by (simp add: pos_le_divide_eq)
    moreover have "pow2 23 = of_int (2 ^ 23)" by (simp add: pow2_def)
    ultimately have "of_int (2 ^ 23) \<le> \<bar>x\<bar> / pow2 e" by simp
    then have "2 ^ 23 \<le> m" unfolding m_def by (rule round_even_ge)
    then have "rat_of_int (2 ^ 23) \<le> of_int m" by (simp only: of_int_le_iff)
    then have "pow2 23 * pow2 e \<le> of_int m * pow2 e"
      using epos by (simp add: pow2_def)
    moreover have "pow2 128 \<le> pow2 (23 + e)" using big by (intro pow2_mono) simp
    ultimately have "pow2 128 \<le> of_int m * pow2 e" by (simp add: pow2_add)
    with small show False by (simp add: pow2_def)
  qed
  show ?thesis
  proof (cases "x < 0")
    case True
    with y have "y = of_int (- m) * pow2 e" by simp
    with m0 m24 e2 e104 show ?thesis by (intro exI [of _ "- m"] exI [of _ e]) simp
  next
    case False
    with y have "y = of_int m * pow2 e" by simp
    with m0 m24 e2 e104 show ?thesis by (intro exI [of _ m] exI [of _ e]) simp
  qed
qed

lemma round_even_of_int: "round_even (of_int n) = n"
  by (simp add: round_even_def)

lemma fround_of_int:
  assumes "\<bar>n\<bar> \<le> 2 ^ 24"
  shows "fround (of_int n) = Finite (of_int n)"
proof (cases "n = 0")
  case True
  then show ?thesis by (simp add: fround_def)
next
  case False
  define x where "x = rat_of_int n"
  define e where "e = ulp_exp x"
  have x0: "x \<noteq> 0" and ax: "0 < \<bar>x\<bar>" using False by (simp_all add: x_def)
  have abs_x: "\<bar>x\<bar> = of_int \<bar>n\<bar>" by (simp add: x_def)
  from ilog2_bounds [OF ax] have lo: "pow2 (ilog2 \<bar>x\<bar>) \<le> \<bar>x\<bar>" by simp
  have le24: "\<bar>x\<bar> \<le> pow2 24"
  proof -
    have "rat_of_int \<bar>n\<bar> \<le> of_int (2 ^ 24)" using assms by (simp only: of_int_le_iff)
    then show ?thesis by (simp add: abs_x pow2_def)
  qed
  have il: "ilog2 \<bar>x\<bar> \<le> 24"
  proof (rule ccontr)
    assume "\<not> ilog2 \<bar>x\<bar> \<le> 24"
    then have "pow2 24 < pow2 (ilog2 \<bar>x\<bar>)" by (intro pow2_strict_mono) simp
    with lo le24 show False by simp
  qed
  have "\<exists>k. \<bar>x\<bar> / pow2 e = of_int k"
  proof (cases "e \<le> 0")
    case True
    then have "pow2 e = 1 / 2 ^ nat (- e)"
      by (cases "e = 0") (simp_all add: pow2_def)
    then have "\<bar>x\<bar> / pow2 e = of_int (\<bar>n\<bar> * 2 ^ nat (- e))" by (simp add: abs_x)
    then show ?thesis ..
  next
    case False
    with il have e1: "e = 1" and "ilog2 \<bar>x\<bar> = 24" by (simp_all add: e_def ulp_exp_def)
    with lo le24 have "\<bar>x\<bar> = pow2 24" by simp
    then have "\<bar>x\<bar> / pow2 e = of_int (2 ^ 23)" by (simp add: e1 pow2_def)
    then show ?thesis ..
  qed
  then obtain k where k: "\<bar>x\<bar> / pow2 e = of_int k" ..
  have scaled: "of_int k * pow2 e = \<bar>x\<bar>"
    using k pow2_pos [of e] by (simp add: field_simps)
  have "\<bar>x\<bar> < 2 ^ 128"
  proof -
    have "pow2 24 < pow2 128" by (intro pow2_strict_mono) simp
    with le24 show ?thesis by (simp add: pow2_def)
  qed
  then have "fround x = Finite ((if x < 0 then - 1 else 1) * \<bar>x\<bar>)"
    using x0 by (simp add: fround_unfold k round_even_of_int scaled flip: e_def)
  then show ?thesis by (simp add: x_def abs_if)
qed

lemma exact_add_of_int:
  assumes "\<bar>a + b\<bar> \<le> 2 ^ 24"
  shows "exact_add (Finite (of_int a)) (Finite (of_int b))"
  using fround_of_int [OF assms] by (simp add: plus_float_def)

lemma fround_nonneg:
  assumes "0 \<le> x"
  shows "(0::float) \<le> fround x"
proof (cases "x = 0")
  case True
  then show ?thesis by (simp add: fround_def less_eq_float_def zero_float_def)
next
  case False
  define e where "e = ulp_exp x"
  have "0 \<le> \<bar>x\<bar> / pow2 e" using pow2_pos [of e] by simp
  then have "0 \<le> round_even (\<bar>x\<bar> / pow2 e)" by (rule round_even_nonneg)
  then have "0 \<le> rat_of_int (round_even (\<bar>x\<bar> / pow2 e)) * pow2 e"
    using pow2_pos [of e] by simp
  with False assms show ?thesis
    by (simp add: fround_def Let_def e_def less_eq_float_def zero_float_def)
qed

lemma float_rounding_examples:
  "fround 16777217 = Finite 16777216"
  "fround 16777219 = Finite 16777220"
  "fround (1 / 10) = Finite (13421773 / 134217728)"
  "fround (2 ^ 128 - 2 ^ 104) = Finite (2 ^ 128 - 2 ^ 104)"
  "fround (2 ^ 128 - 2 ^ 103) = PInf"
  "fround (- (2 ^ 128)) = NInf"
  "fround (1 / 2 ^ 149) = Finite (1 / 2 ^ 149)"
  "fround (1 / 2 ^ 150) = Finite 0"
  "fround (3 / 2 ^ 150) = Finite (1 / 2 ^ 148)"
  by (code_simp, code_simp, code_simp, code_simp, code_simp, code_simp, code_simp, code_simp,
      code_simp)

subsection \<open>Records and index ranges\<close>

lemma Transaction_income_fields:
  "(t::Transaction)\<lparr>amount := a, description := d, category := c, timestamp := n, is_income := b\<rparr> =
   \<lparr>amount = a, description = d, category = c, timestamp = n, is_income = b\<rparr>"
  by (cases t) simp

lemma Transaction_expense_fields:
  "(t::Transaction)\<lparr>amount := a, category := c, description := d, timestamp := n, is_income := b\<rparr> =
   \<lparr>amount = a, description = d, category = c, timestamp = n, is_income = b\<rparr>"
  by (cases t) simp

lemma Notification_fields:
  "(n::Notification)\<lparr>message := m, Notification.timestamp := t, is_read := r\<rparr> =
   \<lparr>message = m, timestamp = t, is_read = r\<rparr>"
  by (cases n) simp

lemma map_upto_shift: "map (\<lambda>j. f (j + 1)) [a .. b] = map f [a + 1 .. b + (1::int)]"
proof (induction a b rule: upto.induct)
  case (1 i j)
  show ?case
  proof (cases "i \<le> j")
    case True
    then show ?thesis using 1 by (simp add: upto_rec1)
  next
    case False
    then show ?thesis by simp
  qed
qed

subsection \<open>Float arithmetic on the values the examples use\<close>

lemma float_examples:
  "(0::float) = Finite 0"
  "Finite 0 + Finite 30 = Finite 30"
  "Finite 0 + Finite 50 = Finite 50"
  by (simp add: zero_float_def, code_simp, code_simp)

subsection \<open>\<^verbatim>\<open>init_tracker\<close>\<close>

lemma init_facts:
  "category_count (init_tracker t0) = 8"
  "transaction_count (init_tracker t0) = 0"
  "notification_count (init_tracker t0) = 1"
  "total_income (init_tracker t0) = 0"
  "total_expenses (init_tracker t0) = 0"
  "transactions (init_tracker t0) = transactions t0"
  by (simp_all add: init_tracker_def Let_def default_categories_def)

lemma init_transaction_list: "transaction_list (init_tracker t0) = []"
  by (simp add: init_facts transaction_list_def)

lemma init_categories:
  "category_list (init_tracker t0) =
     map (\<lambda>d. \<lparr>name = d, budget_limit = 0, current_spent = 0\<rparr>) default_categories"
  by (simp add: init_tracker_def Let_def default_categories_def category_list_def upto_rec1)

lemma init_Salary:
  "categories (init_tracker t0) 0 = \<lparr>name = ''Salary'', budget_limit = 0, current_spent = 0\<rparr>"
  by (simp add: init_tracker_def Let_def default_categories_def)

lemma init_notifications:
  "notification_list (init_tracker t0) =
     [(notifications t0 0)\<lparr>message := ''Tracker initialized with default categories.''\<rparr>]"
  by (simp add: init_tracker_def Let_def default_categories_def notification_list_def)

subsection \<open>\<^verbatim>\<open>add_income\<close> and \<^verbatim>\<open>add_expense\<close>\<close>

lemma add_income_state:
  assumes "transaction_count tracker < 1000"
  shows "snd (add_income a d now tracker) =
           tracker\<lparr>transactions := (transactions tracker)
                      (transaction_count tracker :=
                         \<lparr>amount = a, description = d, category = ''Income'',
                          timestamp = now, is_income = 1\<rparr>),
                   total_income := total_income tracker + a,
                   transaction_count := transaction_count tracker + 1\<rparr>"
  using assms by (simp add: add_income_def Let_def Transaction_income_fields)

lemma add_expense_state:
  assumes "1 \<le> c" and "c \<le> category_count tracker" and "transaction_count tracker < 1000"
  shows "snd (add_expense a c d now tracker) =
           tracker\<lparr>transactions := (transactions tracker)
                      (transaction_count tracker :=
                         \<lparr>amount = a, description = d,
                          category = name (categories tracker (c - 1)),
                          timestamp = now, is_income = 0\<rparr>),
                   categories := (categories tracker)
                      (c - 1 := (categories tracker (c - 1))
                         \<lparr>current_spent := current_spent (categories tracker (c - 1)) + a\<rparr>),
                   total_expenses := total_expenses tracker + a,
                   transaction_count := transaction_count tracker + 1\<rparr>"
  using assms by (simp add: add_expense_def Let_def Transaction_expense_fields)

lemma add_expense_rejected:
  assumes "c < 1 \<or> category_count tracker < c"
  shows "snd (add_expense a c d now tracker) =
           (if 1000 \<le> transaction_count tracker then tracker
            else tracker\<lparr>transactions := (transactions tracker)
                   (transaction_count tracker :=
                      (transactions tracker (transaction_count tracker))\<lparr>amount := a\<rparr>)\<rparr>)"
  using assms by (auto simp add: add_expense_def Let_def)

lemma incomes_count:
  "transaction_count tracker + int n \<le> 1000 \<Longrightarrow>
   transaction_count (incomes n tracker) = transaction_count tracker + int n"
  unfolding incomes_def
  by (induction n) (simp_all add: add_income_def Let_def)


subsection \<open>\<^verbatim>\<open>add_notification\<close>\<close>

lemma shift_loop_at:
  "shift_loop i ns j = (if i \<le> j \<and> j < 49 then ns (j + 1) else ns j)"
proof (induction i ns rule: shift_loop.induct)
  case (1 i ns)
  show ?case
  proof (cases "i < 49")
    case True
    have "shift_loop i ns j = shift_loop (i + 1) (ns(i := ns (i + 1))) j"
      using True by (subst shift_loop.simps) simp
    also have "\<dots> = (if i + 1 \<le> j \<and> j < 49 then (ns(i := ns (i + 1))) (j + 1)
                      else (ns(i := ns (i + 1))) j)"
      using True by (simp add: "1.IH")
    finally show ?thesis using True by auto
  next
    case False
    then show ?thesis by (subst shift_loop.simps) auto
  qed
qed

lemma shifted_list:
  assumes "n \<le> 49"
  shows "map (shift_loop 0 ns) [0 .. n - 1] = map ns [1 .. n]"
proof -
  have "map (shift_loop 0 ns) [0 .. n - 1] = map (\<lambda>j. ns (j + 1)) [0 .. n - 1]"
    using assms by (intro map_cong refl) (simp add: shift_loop_at)
  also have "\<dots> = map ns [0 + 1 .. n - 1 + 1]"
    by (rule map_upto_shift)
  finally show ?thesis by simp
qed

lemma length_notification_list:
  "length (notification_list tracker) = nat (notification_count tracker)"
  by (simp add: notification_list_def)

lemma add_notification_count:
  "notification_count tracker \<le> 50 \<Longrightarrow>
   notification_count (add_notification m now tracker) =
     (if 50 \<le> notification_count tracker then 50 else notification_count tracker + 1)"
  by (simp add: add_notification_def Let_def)

lemma add_notification_list_full:
  assumes "50 \<le> notification_count tracker" and "notification_count tracker \<le> 50"
  shows "notification_list (add_notification m now tracker) =
           tl (notification_list tracker) @ [notification_of (m, now)]"
proof -
  define n where "n = notification_count tracker"
  define ns where "ns = notifications tracker"
  define new where "new = notification_of (m, now)"
  have n: "1 \<le> n" "n - 1 \<le> 49" using assms by (simp_all add: n_def)
  have "add_notification m now tracker =
          tracker\<lparr>notifications := (shift_loop 0 ns)(n - 1 := new), notification_count := n\<rparr>"
    using assms
    by (simp add: add_notification_def Let_def n_def ns_def new_def notification_of_def
        Notification_fields)
  then have "notification_list (add_notification m now tracker) =
               map ((shift_loop 0 ns)(n - 1 := new)) [0 .. n - 1]"
    by (simp add: notification_list_def)
  also have "[0 .. n - 1] = [0 .. n - 1 - 1] @ [n - 1]"
    using n by (intro upto_rec2) simp
  also have "map ((shift_loop 0 ns)(n - 1 := new)) ([0 .. n - 1 - 1] @ [n - 1]) =
               map (shift_loop 0 ns) [0 .. n - 1 - 1] @ [new]"
    by simp
  also have "map (shift_loop 0 ns) [0 .. n - 1 - 1] = map ns [1 .. n - 1]"
    using n by (intro shifted_list) simp
  also have "map ns [1 .. n - 1] = tl (map ns [0 .. n - 1])"
    using n by (subst (2) upto_rec1) simp_all
  finally show ?thesis
    by (simp add: notification_list_def n_def ns_def new_def)
qed

lemma add_notification_list_room:
  assumes "0 \<le> notification_count tracker" and "notification_count tracker < 50"
  shows "notification_list (add_notification m now tracker) =
           notification_list tracker @ [notification_of (m, now)]"
  using assms
  by (simp add: add_notification_def Let_def notification_list_def upto_rec2
      Notification_fields notification_of_def)

lemma add_notification_keeps_last:
  assumes "0 \<le> notification_count tracker" and "notification_count tracker \<le> 50"
  shows "notification_list (add_notification m now tracker) =
           keep_last 50 (notification_list tracker @ [notification_of (m, now)])"
proof (cases "50 \<le> notification_count tracker")
  case True
  then have len: "length (notification_list tracker) = 50"
    using assms by (simp add: length_notification_list)
  then obtain x xs where "notification_list tracker = x # xs"
    by (cases "notification_list tracker") auto
  with len True assms show ?thesis
    by (simp add: add_notification_list_full keep_last_def)
next
  case False
  then have "length (notification_list tracker) < 50"
    using assms by (simp add: length_notification_list)
  with False assms show ?thesis
    by (simp add: add_notification_list_room keep_last_def)
qed

lemma keep_last_rev: "keep_last k xs = rev (take k (rev xs))"
  by (simp add: keep_last_def take_rev)

lemma keep_last_step:
  "keep_last k (keep_last k (xs @ [x]) @ ys) = keep_last k (xs @ x # ys)"
  by (simp add: keep_last_rev min_def)

lemma push_all_list:
  assumes "0 \<le> notification_count tracker" and "notification_count tracker \<le> 50"
  shows "notification_list (push_all ps tracker) =
           keep_last 50 (notification_list tracker @ map notification_of ps) \<and>
         notification_count (push_all ps tracker) =
           min 50 (notification_count tracker + int (length ps))"
  using assms
proof (induction ps arbitrary: tracker)
  case Nil
  then show ?case by (simp add: keep_last_def length_notification_list)
next
  case (Cons p ps)
  let ?t = "add_notification (fst p) (snd p) tracker"
  have c: "notification_count ?t =
             (if 50 \<le> notification_count tracker then 50 else notification_count tracker + 1)"
    using Cons.prems by (simp add: add_notification_count)
  then have b: "0 \<le> notification_count ?t" "notification_count ?t \<le> 50"
    using Cons.prems by auto
  have l: "notification_list ?t =
             keep_last 50 (notification_list tracker @ [notification_of p])"
    using add_notification_keeps_last [OF Cons.prems, of "fst p" "snd p"] by simp
  show ?case
    using Cons.IH [OF b] c Cons.prems by (auto simp add: l keep_last_step)
qed

lemma push_all_fresh:
  "notification_list (push_all ps (init_tracker t0)) =
     keep_last 50
       ((notifications t0 0)\<lparr>message := ''Tracker initialized with default categories.''\<rparr> #
        map notification_of ps) \<and>
   notification_count (push_all ps (init_tracker t0)) = min 50 (1 + int (length ps))"
  using push_all_list [of "init_tracker t0" ps]
  by (simp add: init_facts init_notifications)


subsection \<open>\<^verbatim>\<open>set_budget\<close>\<close>

lemma set_budget_loop_state:
  "snd (set_budget_loop answers i out tracker) =
     tracker\<lparr>categories :=
       (\<lambda>j. if i \<le> j \<and> j < category_count tracker
            then (categories tracker j)\<lparr>budget_limit := answers j\<rparr>
            else categories tracker j)\<rparr>"
proof (induction answers i out tracker rule: set_budget_loop.induct)
  case (1 answers i out tracker)
  show ?case
  proof (cases "i < category_count tracker")
    case True
    then show ?thesis
      by (subst set_budget_loop.simps) (auto simp add: "1.IH" fun_eq_iff)
  next
    case False
    then show ?thesis
      by (subst set_budget_loop.simps) (auto simp add: fun_eq_iff intro!: BudgetTracker.equality)
  qed
qed

lemma set_budget_state:
  "snd (set_budget answers tracker) =
     tracker\<lparr>categories :=
       (\<lambda>j. if 0 \<le> j \<and> j < category_count tracker
            then (categories tracker j)\<lparr>budget_limit := answers j\<rparr>
            else categories tracker j)\<rparr>"
  using set_budget_loop_state
    [of answers 0 "[Printf ''Set budget limits for categories:\<newline>'' []]" tracker]
  by (simp add: set_budget_def split_beta)

subsection \<open>The over-budget warning\<close>

lemma category_menu_no_warning: "\<not> list_ex is_warning (category_menu tracker)"
  by (simp add: category_menu_def list_ex_iff)

lemma add_expense_warning:
  assumes "1 \<le> c" and "c \<le> category_count tracker" and "transaction_count tracker < 1000"
  shows "budget_exceeded (fst (add_expense a c d now tracker)) \<longleftrightarrow>
           0 < budget_limit (categories tracker (c - 1)) \<and>
           budget_limit (categories tracker (c - 1)) < current_spent (categories tracker (c - 1)) + a"
  using assms category_menu_no_warning [of tracker]
  by (simp add: add_expense_def Let_def budget_exceeded_def)

lemma init_Food:
  "categories (init_tracker t0) 3 = \<lparr>name = ''Food'', budget_limit = 0, current_spent = 0\<rparr>"
  by (simp add: init_tracker_def Let_def default_categories_def)

lemma float_examples_budget:
  "Finite 0 + Finite 90 = Finite 90"
  "Finite 0 + Finite 10 = Finite 10"
  "Finite 90 + Finite 20 = Finite 110"
  "Finite 0 < Finite 100"
  "Finite 100 < Finite 110"
  "Finite (- 5) < Finite 10"
  "\<not> Finite 0 < Finite (- 5)"
  "\<not> Finite 0 \<le> Finite (- 5)"
  by (code_simp, code_simp, code_simp, code_simp, code_simp, code_simp, code_simp, code_simp)

lemma negative_limits_facts:
  "category_count negative_limits = 8"
  "transaction_count negative_limits = 0"
  "categories negative_limits 3 =
     \<lparr>name = ''Food'', budget_limit = Finite (- 5), current_spent = Finite 0\<rparr>"
  by (simp_all add: negative_limits_def set_budget_state init_facts init_Food answer_all_def
      zero_float_def)

lemma food_at_ninety_facts:
  "category_count food_at_ninety = 8"
  "transaction_count food_at_ninety = 1"
  "categories food_at_ninety 3 =
     \<lparr>name = ''Food'', budget_limit = Finite 100, current_spent = Finite 90\<rparr>"
  by (simp_all add: food_at_ninety_def add_expense_state set_budget_state init_facts init_Food
      answer_all_def zero_float_def float_examples_budget)


subsection \<open>Invariants of a run\<close>

lemma run_invariant:
  assumes "I tracker" and "every_call P calls tracker"
    and step: "\<And>c t. I t \<Longrightarrow> P c t \<Longrightarrow> I (exec c t)"
  shows "I (run calls tracker)"
  using assms(1,2)
proof (induction calls arbitrary: tracker)
  case Nil
  then show ?case by simp
next
  case (Cons c cs)
  from Cons.prems have "I (exec c tracker)" and "every_call P cs (exec c tracker)"
    by (simp_all add: step)
  then show ?case by (simp add: Cons.IH)
qed

lemma every_call_True: "every_call (\<lambda>c t. True) calls tracker"
  by (induction calls arbitrary: tracker) simp_all

lemma add_notification_frame:
  "transactions (add_notification m now tracker) = transactions tracker"
  "transaction_count (add_notification m now tracker) = transaction_count tracker"
  "categories (add_notification m now tracker) = categories tracker"
  "category_count (add_notification m now tracker) = category_count tracker"
  "total_income (add_notification m now tracker) = total_income tracker"
  "total_expenses (add_notification m now tracker) = total_expenses tracker"
  by (simp_all add: add_notification_def Let_def)

text \<open>The two totals are the float sums of the amounts recorded.\<close>

lemma float_sum_snoc: "float_sum (xs @ [x]) = float_sum xs + x"
  by (simp add: float_sum_def)

lemma totals_ok_income:
  assumes "totals_ok tracker"
  shows "totals_ok (snd (add_income a d now tracker))"
proof (cases "transaction_count tracker < 1000")
  case True
  from add_income_state [OF True] assms show ?thesis
    by (simp add: totals_ok_def income_amounts_def expense_amounts_def
        transaction_list_def upto_rec2 float_sum_snoc)
next
  case False
  with assms show ?thesis by (simp add: add_income_def)
qed

lemma totals_ok_expense:
  assumes "totals_ok tracker"
  shows "totals_ok (snd (add_expense a c d now tracker))"
proof (cases "transaction_count tracker < 1000")
  case True
  show ?thesis
  proof (cases "1 \<le> c \<and> c \<le> category_count tracker")
    case valid: True
    then have "1 \<le> c" "c \<le> category_count tracker" by simp_all
    from add_expense_state [OF this True] assms show ?thesis
      by (simp add: totals_ok_def income_amounts_def expense_amounts_def
          transaction_list_def upto_rec2 float_sum_snoc)
  next
    case False
    then have "c < 1 \<or> category_count tracker < c" by auto
    from add_expense_rejected [OF this] True assms show ?thesis
      by (simp add: totals_ok_def income_amounts_def expense_amounts_def transaction_list_def)
  qed
next
  case False
  with assms show ?thesis by (simp add: add_expense_def)
qed

lemma totals_ok_exec:
  assumes "totals_ok tracker"
  shows "totals_ok (exec c tracker)"
proof (cases c)
  case (Add_income a d now)
  with assms show ?thesis by (simp add: totals_ok_income)
next
  case (Add_expense a k d now)
  with assms show ?thesis by (simp add: totals_ok_expense)
next
  case (Set_budget answers)
  with assms show ?thesis
    by (simp add: set_budget_state totals_ok_def income_amounts_def
        expense_amounts_def transaction_list_def)
next
  case (Add_notification m now)
  with assms show ?thesis
    by (simp add: add_notification_frame totals_ok_def income_amounts_def
        expense_amounts_def transaction_list_def)
qed

lemma totals_ok_init: "totals_ok (init_tracker t0)"
  by (simp add: totals_ok_def init_facts init_transaction_list income_amounts_def
      expense_amounts_def float_sum_def)

lemma totals_ok_run: "totals_ok (run calls (init_tracker t0))"
  by (rule run_invariant [where P = "\<lambda>c t. True"])
     (simp_all add: totals_ok_init every_call_True totals_ok_exec)

text \<open>One entry of an array changes: what happens to sums and to properties of all entries.\<close>

lemma map_fun_upd_outside: "k \<notin> set xs \<Longrightarrow> map (f(k := v)) xs = map f xs"
  by (induction xs) auto

lemma sum_list_fun_upd:
  fixes f :: "int \<Rightarrow> rat"
  assumes "i \<le> k" and "k \<le> j"
  shows "sum_list (map (f(k := v)) [i .. j]) = sum_list (map f [i .. j]) - f k + v"
proof -
  have split: "[i .. j] = [i .. k - 1] @ k # [k + 1 .. j]"
    using assms by (rule upto_split3)
  have "map (f(k := v)) [i .. k - 1] = map f [i .. k - 1]"
    and "map (f(k := v)) [k + 1 .. j] = map f [k + 1 .. j]"
    by (simp_all add: map_fun_upd_outside)
  then show ?thesis by (simp add: split)
qed

lemma category_list_update:
  assumes "categories t' = (categories t)(k := cat)" and "category_count t' = category_count t"
  shows "map f (category_list t') = map ((\<lambda>i. f (categories t i))(k := f cat)) [0 .. category_count t - 1]"
  using assms by (simp add: category_list_def fun_upd_def)

lemma category_list_map: "map f (category_list t) = map (\<lambda>i. f (categories t i)) [0 .. category_count t - 1]"
  by (simp add: category_list_def)

lemma list_all_category_list:
  "list_all P (category_list t) = list_all (\<lambda>i. P (categories t i)) [0 .. category_count t - 1]"
  by (simp add: category_list_def list_all_iff)

lemma list_all_fun_upd:
  "list_all P (map g xs) \<Longrightarrow> P v \<Longrightarrow> list_all P (map (g(k := v)) xs)"
  by (auto simp add: list_all_iff)

lemma list_all_category_update:
  assumes "categories t' = (categories t)(k := cat)" and "category_count t' = category_count t"
    and "list_all P (category_list t)" and "P cat"
  shows "list_all P (category_list t')"
  using assms by (simp add: category_list_def list_all_fun_upd)

lemma list_all_category_at:
  "list_all P (category_list t) \<Longrightarrow> 0 \<le> k \<Longrightarrow> k < category_count t \<Longrightarrow> P (categories t k)"
  by (simp add: category_list_def list_all_iff)

subsection \<open>Exact additions\<close>

lemma exact_addE:
  assumes "exact_add u v"
  obtains x y where "u = Finite x" and "v = Finite y" and "u + v = Finite (x + y)"
  using assms by (cases u; cases v) simp_all

lemma spent_exact_expense:
  assumes inv: "spent_exact tracker" and ok: "rounds_nothing (Add_expense a c d now) tracker"
  shows "spent_exact (snd (add_expense a c d now tracker))"
proof (cases "transaction_count tracker < 1000")
  case True
  show ?thesis
  proof (cases "1 \<le> c \<and> c \<le> category_count tracker")
    case valid: True
    define k where "k = c - 1"
    define cat where "cat = (categories tracker k)\<lparr>current_spent := current_spent (categories tracker k) + a\<rparr>"
    define t' where "t' = snd (add_expense a c d now tracker)"
    have k: "0 \<le> k" "k \<le> category_count tracker - 1" using valid by (simp_all add: k_def)
    from valid True have st: "categories t' = (categories tracker)(k := cat)"
      "category_count t' = category_count tracker"
      "total_expenses t' = total_expenses tracker + a"
      by (simp_all add: t'_def add_expense_state k_def cat_def)
    from ok valid True have e1: "exact_add (current_spent (categories tracker k)) a"
      and e2: "exact_add (total_expenses tracker) a"
      by (simp_all add: k_def)
    from e1 obtain x y where x: "current_spent (categories tracker k) = Finite x"
      and y: "a = Finite y" and xy: "current_spent (categories tracker k) + a = Finite (x + y)"
      by (rule exact_addE)
    from e2 obtain z y' where z: "total_expenses tracker = Finite z" and "a = Finite y'"
      and zy: "total_expenses tracker + a = Finite (z + y')"
      by (rule exact_addE)
    with y have y': "y' = y" by simp
    from inv z have sum: "spent_sum tracker = z" by (simp add: spent_exact_def)
    have "spent_sum t' =
            sum_list (map ((\<lambda>i. fval (current_spent (categories tracker i)))
                             (k := fval (current_spent cat))) [0 .. category_count tracker - 1])"
      unfolding spent_sum_def by (simp only: category_list_update [OF st(1,2)])
    also have "\<dots> = sum_list (map (\<lambda>i. fval (current_spent (categories tracker i)))
                             [0 .. category_count tracker - 1])
                     - fval (current_spent (categories tracker k)) + fval (current_spent cat)"
      using k by (rule sum_list_fun_upd)
    also have "\<dots> = spent_sum tracker - x + (x + y)"
      using xy by (simp add: spent_sum_def category_list_map x cat_def)
    finally have "spent_sum t' = z + y" by (simp add: sum)
    moreover have "total_expenses t' = Finite (z + y)" by (simp add: st zy y')
    moreover have "list_all (\<lambda>c. is_finite (current_spent c)) (category_list t')"
      using st(1,2)
    proof (rule list_all_category_update)
      show "list_all (\<lambda>c. is_finite (current_spent c)) (category_list tracker)"
        using inv by (simp add: spent_exact_def)
      show "is_finite (current_spent cat)" by (simp add: cat_def xy)
    qed
    ultimately show ?thesis by (simp add: spent_exact_def t'_def)
  next
    case False
    then have "c < 1 \<or> category_count tracker < c" by auto
    from add_expense_rejected [OF this] True inv show ?thesis
      by (simp add: spent_exact_def spent_sum_def category_list_def)
  qed
next
  case False
  with inv show ?thesis by (simp add: add_expense_def)
qed

lemma set_budget_categories:
  "current_spent (categories (snd (set_budget answers tracker)) j) = current_spent (categories tracker j)"
  "category_count (snd (set_budget answers tracker)) = category_count tracker"
  "total_expenses (snd (set_budget answers tracker)) = total_expenses tracker"
  by (simp_all add: set_budget_state)

lemma spent_exact_exec:
  assumes "spent_exact tracker" and "rounds_nothing c tracker"
  shows "spent_exact (exec c tracker)"
proof (cases c)
  case (Add_income a d now)
  show ?thesis
  proof (cases "transaction_count tracker < 1000")
    case True
    from add_income_state [OF True] assms(1) show ?thesis
      by (simp add: Add_income spent_exact_def spent_sum_def category_list_def)
  next
    case False
    with assms(1) show ?thesis by (simp add: Add_income add_income_def)
  qed
next
  case (Add_expense a k d now)
  with assms show ?thesis by (simp add: spent_exact_expense)
next
  case (Set_budget answers)
  with assms(1) show ?thesis
    by (simp add: spent_exact_def spent_sum_def category_list_map list_all_category_list
        set_budget_categories)
next
  case (Add_notification m now)
  with assms(1) show ?thesis
    by (simp add: spent_exact_def spent_sum_def category_list_def add_notification_frame)
qed

lemma spent_exact_init: "spent_exact (init_tracker t0)"
  by (simp add: spent_exact_def spent_sum_def init_categories init_facts default_categories_def
      zero_float_def)

lemma spent_exact_run:
  "every_call rounds_nothing calls (init_tracker t0) \<Longrightarrow> spent_exact (run calls (init_tracker t0))"
  by (rule run_invariant [where P = rounds_nothing])
     (simp_all add: spent_exact_init spent_exact_exec)

subsection \<open>Signs\<close>

lemma float_nonneg_cases:
  "(0::float) \<le> a \<longleftrightarrow> a = PInf \<or> (\<exists>x. a = Finite x \<and> 0 \<le> x)"
  by (cases a) (simp_all add: less_eq_float_def zero_float_def)

lemma float_add_nonneg:
  assumes "(0::float) \<le> a" and "0 \<le> b"
  shows "0 \<le> a + b"
proof -
  from assms consider "a = PInf" | "b = PInf"
    | x y where "a = Finite x" "0 \<le> x" "b = Finite y" "0 \<le> y"
    by (auto simp add: float_nonneg_cases)
  then show ?thesis
  proof cases
    case 1
    with assms(2) show ?thesis
      by (auto simp add: float_nonneg_cases plus_float_def)
  next
    case 2
    with assms(1) show ?thesis
      by (auto simp add: float_nonneg_cases plus_float_def)
  next
    case 3
    then have "a + b = fround (x + y)" by (simp add: plus_float_def)
    moreover have "0 \<le> fround (x + y)" using 3 by (intro fround_nonneg) simp
    ultimately show ?thesis by simp
  qed
qed

lemma categories_nonneg_expense:
  assumes inv: "categories_nonneg tracker" and a: "0 \<le> a"
  shows "categories_nonneg (snd (add_expense a c d now tracker))"
proof (cases "transaction_count tracker < 1000")
  case True
  show ?thesis
  proof (cases "1 \<le> c \<and> c \<le> category_count tracker")
    case valid: True
    define k where "k = c - 1"
    define cat where
      "cat = (categories tracker k)\<lparr>current_spent := current_spent (categories tracker k) + a\<rparr>"
    from valid True have st:
      "categories (snd (add_expense a c d now tracker)) = (categories tracker)(k := cat)"
      "category_count (snd (add_expense a c d now tracker)) = category_count tracker"
      by (simp_all add: add_expense_state k_def cat_def)
    have old: "0 \<le> current_spent (categories tracker k) \<and> 0 \<le> budget_limit (categories tracker k)"
      using inv valid unfolding categories_nonneg_def
      by (intro list_all_category_at [where P = "\<lambda>c. 0 \<le> current_spent c \<and> 0 \<le> budget_limit c"])
         (simp_all add: k_def)
    show ?thesis
      unfolding categories_nonneg_def using st
    proof (rule list_all_category_update)
      show "list_all (\<lambda>c. 0 \<le> current_spent c \<and> 0 \<le> budget_limit c) (category_list tracker)"
        using inv by (simp add: categories_nonneg_def)
      show "0 \<le> current_spent cat \<and> 0 \<le> budget_limit cat"
        using old a by (simp add: cat_def float_add_nonneg)
    qed
  next
    case False
    then have "c < 1 \<or> category_count tracker < c" by auto
    from add_expense_rejected [OF this] True inv show ?thesis
      by (simp add: categories_nonneg_def category_list_def)
  qed
next
  case False
  with inv show ?thesis by (simp add: add_expense_def)
qed

lemma categories_nonneg_set_budget:
  assumes inv: "categories_nonneg tracker"
    and answers: "list_all (\<lambda>i. 0 \<le> answers i) [0 .. category_count tracker - 1]"
  shows "categories_nonneg (snd (set_budget answers tracker))"
  using assms unfolding categories_nonneg_def list_all_category_list
  by (simp add: set_budget_state list_all_iff)

lemma categories_nonneg_exec:
  assumes "categories_nonneg tracker" and "nonneg_inputs c tracker"
  shows "categories_nonneg (exec c tracker)"
proof (cases c)
  case (Add_income a d now)
  show ?thesis
  proof (cases "transaction_count tracker < 1000")
    case True
    from add_income_state [OF True] assms(1) show ?thesis
      by (simp add: Add_income categories_nonneg_def category_list_def)
  next
    case False
    with assms(1) show ?thesis by (simp add: Add_income add_income_def)
  qed
next
  case (Add_expense a k d now)
  with assms show ?thesis by (simp add: categories_nonneg_expense)
next
  case (Set_budget answers)
  with assms show ?thesis by (simp add: categories_nonneg_set_budget)
next
  case (Add_notification m now)
  with assms(1) show ?thesis
    by (simp add: categories_nonneg_def category_list_def add_notification_frame)
qed

lemma categories_nonneg_init: "categories_nonneg (init_tracker t0)"
  by (simp add: categories_nonneg_def init_categories default_categories_def
      zero_float_def less_eq_float_def)

lemma categories_nonneg_run:
  "every_call nonneg_inputs calls (init_tracker t0) \<Longrightarrow>
   categories_nonneg (run calls (init_tracker t0))"
  by (rule run_invariant [where P = nonneg_inputs])
     (simp_all add: categories_nonneg_init categories_nonneg_exec)


section \<open>The claims\<close>

text \<open>
  C1, as the code has it. After any run of the four operations from a freshly initialized
  ledger, \<open>total_income\<close> is the float sum of the amounts of the stored transactions with
  \<open>is_income \<noteq> 0\<close>, taken in the order they were stored, and \<open>total_expenses\<close> is the float
  sum of the amounts of those with \<open>is_income = 0\<close>. When none of the additions a recorded
  expense makes rounds, every \<open>current_spent\<close> is finite and \<open>total_expenses\<close> is the sum
  of the numbers the categories' \<open>current_spent\<close> stand for.
\<close>

theorem totals_are_sums:
  "total_income (run calls (init_tracker tracker0)) =
     float_sum (income_amounts (run calls (init_tracker tracker0))) \<and>
   total_expenses (run calls (init_tracker tracker0)) =
     float_sum (expense_amounts (run calls (init_tracker tracker0))) \<and>
   (every_call rounds_nothing calls (init_tracker tracker0) \<longrightarrow>
      total_expenses (run calls (init_tracker tracker0)) =
        Finite (spent_sum (run calls (init_tracker tracker0))) \<and>
      list_all (\<lambda>c. is_finite (current_spent c))
        (category_list (run calls (init_tracker tracker0))))"
  using totals_ok_run [of calls tracker0] spent_exact_run [of calls tracker0]
  by (simp add: totals_ok_def spent_exact_def)

theorem totals_are_sums_witness:
  "every_call rounds_nothing sample_calls (init_tracker zero_memory) \<and>
   income_amounts (run sample_calls (init_tracker zero_memory)) = [Finite 50] \<and>
   expense_amounts (run sample_calls (init_tracker zero_memory)) = [Finite 90, Finite 20] \<and>
   total_income (run sample_calls (init_tracker zero_memory)) = float_sum [Finite 50] \<and>
   total_expenses (run sample_calls (init_tracker zero_memory)) =
     float_sum [Finite 90, Finite 20] \<and>
   total_expenses (run sample_calls (init_tracker zero_memory)) =
     Finite (spent_sum (run sample_calls (init_tracker zero_memory))) \<and>
   spent_sum (run sample_calls (init_tracker zero_memory)) = 110"
proof -
  have exact: "every_call rounds_nothing sample_calls (init_tracker zero_memory)"
    by code_simp
  have amounts: "income_amounts (run sample_calls (init_tracker zero_memory)) = [Finite 50]"
    "expense_amounts (run sample_calls (init_tracker zero_memory)) = [Finite 90, Finite 20]"
    "spent_sum (run sample_calls (init_tracker zero_memory)) = 110"
    by (code_simp, code_simp, code_simp)
  have sum: "float_sum [Finite 90, Finite 20] = Finite 110"
    by code_simp
  from totals_are_sums [of sample_calls zero_memory] exact amounts sum show ?thesis
    by simp
qed

text \<open>
  C1 as it is written also equates \<open>total_expenses\<close> with the sum of the categories'
  \<open>current_spent\<close> after every run. Float addition rounds: 16777216 spent on the first
  category and then 1 and 1 on the second leave \<open>total_expenses\<close> at 16777216, since
  16777217 has no float and the tie goes to the even neighbour, while the categories hold
  16777216 and 2, whose sum, 16777218, is a float.
\<close>

theorem totals_counterexample:
  "fround 16777216 = Finite 16777216 \<and> fround 1 = Finite 1 \<and>
   expense_amounts (run rounding_calls (init_tracker zero_memory)) =
     [Finite 16777216, Finite 1, Finite 1] \<and>
   total_expenses (run rounding_calls (init_tracker zero_memory)) = Finite 16777216 \<and>
   map current_spent (category_list (run rounding_calls (init_tracker zero_memory))) =
     [Finite 16777216, Finite 2, Finite 0, Finite 0, Finite 0, Finite 0, Finite 0, Finite 0] \<and>
   float_sum (map current_spent (category_list (run rounding_calls (init_tracker zero_memory)))) =
     Finite 16777218 \<and>
   spent_sum (run rounding_calls (init_tracker zero_memory)) = 16777218 \<and>
   sum_list (map fval (expense_amounts (run rounding_calls (init_tracker zero_memory)))) =
     16777218 \<and>
   total_expenses (run rounding_calls (init_tracker zero_memory)) \<noteq>
     float_sum (map current_spent (category_list (run rounding_calls (init_tracker zero_memory))))"
  by code_simp

text \<open>
  C2. A call of \<^verbatim>\<open>add_expense\<close> whose category choice is between 1 and the number of
  categories, on a ledger that passed the capacity check, stores one transaction with the name
  of the chosen category and \<open>is_income = 0\<close>, adds the amount to \<open>total_expenses\<close> and adds
  the same amount to the \<open>current_spent\<close> of the chosen category, and to no other. The
  additions are those of the type float.
\<close>

theorem add_expense_records:
  "1 \<le> category_choice \<Longrightarrow> category_choice \<le> category_count tracker \<Longrightarrow>
   0 \<le> transaction_count tracker \<Longrightarrow> transaction_count tracker < 1000 \<Longrightarrow>
   transaction_list (snd (add_expense a category_choice d now tracker)) =
     transaction_list tracker @
     [\<lparr>amount = a, description = d, category = name (categories tracker (category_choice - 1)),
       timestamp = now, is_income = 0\<rparr>] \<and>
   transaction_count (snd (add_expense a category_choice d now tracker)) =
     transaction_count tracker + 1 \<and>
   total_expenses (snd (add_expense a category_choice d now tracker)) =
     total_expenses tracker + a \<and>
   categories (snd (add_expense a category_choice d now tracker)) =
     (categories tracker)(category_choice - 1 :=
        (categories tracker (category_choice - 1))
          \<lparr>current_spent := current_spent (categories tracker (category_choice - 1)) + a\<rparr>) \<and>
   current_spent (categories (snd (add_expense a category_choice d now tracker)) (category_choice - 1)) =
     current_spent (categories tracker (category_choice - 1)) + a \<and>
   total_income (snd (add_expense a category_choice d now tracker)) = total_income tracker \<and>
   category_count (snd (add_expense a category_choice d now tracker)) = category_count tracker"
  by (simp add: add_expense_state transaction_list_def upto_rec2)

theorem add_expense_records_witness:
  "(1::int) \<le> 1 \<and> 1 \<le> category_count (init_tracker zero_memory) \<and>
   0 \<le> transaction_count (init_tracker zero_memory) \<and>
   transaction_count (init_tracker zero_memory) < 1000 \<and>
   transaction_list (snd (add_expense (Finite 30) 1 ''test'' 3 (init_tracker zero_memory))) =
     [\<lparr>amount = Finite 30, description = ''test'', category = ''Salary'',
       timestamp = 3, is_income = 0\<rparr>] \<and>
   total_expenses (snd (add_expense (Finite 30) 1 ''test'' 3 (init_tracker zero_memory))) =
     Finite 30 \<and>
   current_spent (categories (snd (add_expense (Finite 30) 1 ''test'' 3 (init_tracker zero_memory))) 0) =
     Finite 30"
  using add_expense_records [of 1 "init_tracker zero_memory" "Finite 30" "''test''" 3]
  by (simp add: init_facts init_Salary float_examples init_transaction_list)

text \<open>
  C3. When the category choice is below 1 or above the number of categories,
  \<^verbatim>\<open>add_expense\<close> records nothing: the transaction counter, the stored transactions, both
  totals, every category and the notifications are what they were. The only memory it has
  written is the \<open>amount\<close> field of the unused slot behind the last transaction. On a ledger
  that is not full the trace ends with "Invalid category. Expense not recorded." right after
  the read of the choice, and the description is never read.
\<close>

theorem add_expense_invalid_category:
  "category_choice < 1 \<or> category_count tracker < category_choice \<Longrightarrow>
   transaction_count (snd (add_expense a category_choice d now tracker)) =
     transaction_count tracker \<and>
   transaction_list (snd (add_expense a category_choice d now tracker)) =
     transaction_list tracker \<and>
   total_expenses (snd (add_expense a category_choice d now tracker)) = total_expenses tracker \<and>
   total_income (snd (add_expense a category_choice d now tracker)) = total_income tracker \<and>
   categories (snd (add_expense a category_choice d now tracker)) = categories tracker \<and>
   category_count (snd (add_expense a category_choice d now tracker)) = category_count tracker \<and>
   notifications (snd (add_expense a category_choice d now tracker)) = notifications tracker \<and>
   notification_count (snd (add_expense a category_choice d now tracker)) =
     notification_count tracker \<and>
   snd (add_expense a category_choice d now tracker) =
     (if 1000 \<le> transaction_count tracker then tracker
      else tracker\<lparr>transactions := (transactions tracker)
             (transaction_count tracker :=
                (transactions tracker (transaction_count tracker))\<lparr>amount := a\<rparr>)\<rparr>) \<and>
   (if transaction_count tracker < 1000
    then fst (add_expense a category_choice d now tracker) =
           [Get_float_input ''Enter expense amount: '', Printf ''Select category:\<newline>'' []] @
           category_menu tracker @
           [Scanf_d, Printf ''Invalid category. Expense not recorded.\<newline>'' []]
    else fst (add_expense a category_choice d now tracker) =
           [Printf ''Transaction limit reached!\<newline>'' []])"
  by (simp add: add_expense_rejected transaction_list_def)
     (auto simp add: add_expense_def Let_def)

theorem add_expense_invalid_category_witness:
  "((0::int) < 1 \<or> category_count (init_tracker zero_memory) < 0) \<and>
   (9 < (1::int) \<or> category_count (init_tracker zero_memory) < 9) \<and>
   transaction_count (snd (add_expense (Finite 30) 0 ''test'' 3 (init_tracker zero_memory))) = 0 \<and>
   total_expenses (snd (add_expense (Finite 30) 0 ''test'' 3 (init_tracker zero_memory))) = Finite 0 \<and>
   categories (snd (add_expense (Finite 30) 0 ''test'' 3 (init_tracker zero_memory))) =
     categories (init_tracker zero_memory) \<and>
   transaction_count (snd (add_expense (Finite 30) 9 ''test'' 3 (init_tracker zero_memory))) = 0 \<and>
   total_expenses (snd (add_expense (Finite 30) 9 ''test'' 3 (init_tracker zero_memory))) = Finite 0 \<and>
   categories (snd (add_expense (Finite 30) 9 ''test'' 3 (init_tracker zero_memory))) =
     categories (init_tracker zero_memory) \<and>
   last (fst (add_expense (Finite 30) 9 ''test'' 3 (init_tracker zero_memory))) =
     Printf ''Invalid category. Expense not recorded.\<newline>'' []"
  using add_expense_invalid_category [of 0 "init_tracker zero_memory" "Finite 30" "''test''" 3]
    add_expense_invalid_category [of 9 "init_tracker zero_memory" "Finite 30" "''test''" 3]
  by (simp add: init_facts float_examples)

text \<open>
  C4, as the code has it. A call of \<^verbatim>\<open>add_expense\<close> that records the expense prints the
  over-budget warning exactly when the limit of the chosen category is greater than 0 and
  its \<open>current_spent\<close>, after the amount was added, is greater than the limit. A limit of 100
  with 90 spent and an expense of 20 gives the warning and leaves 110 spent.
\<close>

theorem budget_warning_iff:
  "1 \<le> c \<Longrightarrow> c \<le> category_count tracker \<Longrightarrow> transaction_count tracker < 1000 \<Longrightarrow>
   (budget_exceeded (fst (add_expense a c d now tracker)) \<longleftrightarrow>
      0 < budget_limit (categories tracker (c - 1)) \<and>
      budget_limit (categories tracker (c - 1)) <
        current_spent (categories (snd (add_expense a c d now tracker)) (c - 1))) \<and>
   current_spent (categories (snd (add_expense a c d now tracker)) (c - 1)) =
     current_spent (categories tracker (c - 1)) + a \<and>
   budget_limit (categories (snd (add_expense a c d now tracker)) (c - 1)) =
     budget_limit (categories tracker (c - 1)) \<and>
   (budget_limit (categories tracker (c - 1)) = Finite 100 \<and>
    current_spent (categories tracker (c - 1)) = Finite 90 \<and> a = Finite 20 \<longrightarrow>
      budget_exceeded (fst (add_expense a c d now tracker)) \<and>
      current_spent (categories (snd (add_expense a c d now tracker)) (c - 1)) = Finite 110)"
  by (simp add: add_expense_warning add_expense_state float_examples_budget zero_float_def)

theorem budget_warning_iff_witness:
  "(1::int) \<le> 4 \<and> 4 \<le> category_count food_at_ninety \<and>
   transaction_count food_at_ninety < 1000 \<and>
   name (categories food_at_ninety 3) = ''Food'' \<and>
   budget_limit (categories food_at_ninety 3) = Finite 100 \<and>
   current_spent (categories food_at_ninety 3) = Finite 90 \<and>
   budget_exceeded (fst (add_expense (Finite 20) 4 ''meal'' 7 food_at_ninety)) \<and>
   current_spent (categories (snd (add_expense (Finite 20) 4 ''meal'' 7 food_at_ninety)) 3) =
     Finite 110"
  using budget_warning_iff [of 4 food_at_ninety "Finite 20" "''meal''" 7]
  by (simp add: food_at_ninety_facts float_examples_budget zero_float_def)

text \<open>
  C4 as it is written asks for the warning whenever the limit is not zero. \<^verbatim>\<open>set_budget\<close>
  stores whatever number it reads, and with a limit of \<open>-5\<close> an expense of 10 brings
  \<open>current_spent\<close> above the limit without a warning.
\<close>

theorem budget_warning_counterexample:
  "budget_limit (categories negative_limits 3) = Finite (- 5) \<and>
   budget_limit (categories negative_limits 3) \<noteq> 0 \<and>
   current_spent (categories (snd (add_expense (Finite 10) 4 ''meal'' 7 negative_limits)) 3) =
     Finite 10 \<and>
   budget_limit (categories (snd (add_expense (Finite 10) 4 ''meal'' 7 negative_limits)) 3) <
     current_spent (categories (snd (add_expense (Finite 10) 4 ''meal'' 7 negative_limits)) 3) \<and>
   transaction_count (snd (add_expense (Finite 10) 4 ''meal'' 7 negative_limits)) =
     transaction_count negative_limits + 1 \<and>
   \<not> budget_exceeded (fst (add_expense (Finite 10) 4 ''meal'' 7 negative_limits))"
  by (simp add: add_expense_warning add_expense_state negative_limits_facts
      float_examples_budget zero_float_def)

text \<open>
  C5. \<^verbatim>\<open>add_notification\<close> on a log of 50 entries drops the entry at index 0, keeps the
  49 others in their order, and stores the new notification, with \<open>is_read = 0\<close>, behind
  them: the log has 50 entries again. Below 50 entries the new one is appended. From a
  freshly initialized ledger, whose log holds the one initialization message, 49 calls fill
  the log, the 50th call drops the initialization message, and after 51 calls the log holds
  the last 50 notifications in the order of the calls.
\<close>

theorem notification_log_fifo:
  "(notification_count tracker = 50 \<longrightarrow>
      notification_count (add_notification m now tracker) = 50 \<and>
      notification_list (add_notification m now tracker) =
        tl (notification_list tracker) @
        [\<lparr>message = strncpy m 99, timestamp = now, is_read = 0\<rparr>]) \<and>
   (0 \<le> notification_count tracker \<and> notification_count tracker < 50 \<longrightarrow>
      notification_count (add_notification m now tracker) = notification_count tracker + 1 \<and>
      notification_list (add_notification m now tracker) =
        notification_list tracker @
        [\<lparr>message = strncpy m 99, timestamp = now, is_read = 0\<rparr>]) \<and>
   (length ps = 51 \<longrightarrow>
      notification_list (push_all (take 49 ps) (init_tracker tracker0)) =
        (notifications tracker0 0)\<lparr>message := ''Tracker initialized with default categories.''\<rparr> #
        map notification_of (take 49 ps) \<and>
      notification_list (push_all (take 50 ps) (init_tracker tracker0)) =
        map notification_of (take 50 ps) \<and>
      notification_list (push_all ps (init_tracker tracker0)) = map notification_of (drop 1 ps) \<and>
      notification_count (push_all ps (init_tracker tracker0)) = 50)"
proof (intro conjI impI)
  assume "notification_count tracker = 50"
  then show "notification_count (add_notification m now tracker) = 50"
    by (simp add: add_notification_count)
next
  assume "notification_count tracker = 50"
  then have "50 \<le> notification_count tracker" "notification_count tracker \<le> 50" by simp_all
  from add_notification_list_full [OF this]
  show "notification_list (add_notification m now tracker) =
          tl (notification_list tracker) @
          [\<lparr>message = strncpy m 99, timestamp = now, is_read = 0\<rparr>]"
    by (simp add: notification_of_def)
next
  assume "0 \<le> notification_count tracker \<and> notification_count tracker < 50"
  then show "notification_count (add_notification m now tracker) = notification_count tracker + 1"
    by (simp add: add_notification_count)
next
  assume "0 \<le> notification_count tracker \<and> notification_count tracker < 50"
  then show "notification_list (add_notification m now tracker) =
          notification_list tracker @
          [\<lparr>message = strncpy m 99, timestamp = now, is_read = 0\<rparr>]"
    by (simp add: add_notification_list_room notification_of_def)
next
  assume "length ps = 51"
  then show "notification_list (push_all (take 49 ps) (init_tracker tracker0)) =
        (notifications tracker0 0)\<lparr>message := ''Tracker initialized with default categories.''\<rparr> #
        map notification_of (take 49 ps)"
    by (simp add: push_all_fresh keep_last_def)
next
  assume "length ps = 51"
  then show "notification_list (push_all (take 50 ps) (init_tracker tracker0)) =
        map notification_of (take 50 ps)"
    by (simp add: push_all_fresh keep_last_def)
next
  assume "length ps = 51"
  then show "notification_list (push_all ps (init_tracker tracker0)) = map notification_of (drop 1 ps)"
    by (simp add: push_all_fresh keep_last_def drop_map)
next
  assume "length ps = 51"
  then show "notification_count (push_all ps (init_tracker tracker0)) = 50"
    by (simp add: push_all_fresh)
qed

theorem notification_log_fifo_witness:
  "notification_count (push_all (take 49 fifty_one) (init_tracker zero_memory)) = 50 \<and>
   notification_count
     (add_notification ''late'' 99 (push_all (take 49 fifty_one) (init_tracker zero_memory))) = 50 \<and>
   notification_list
     (add_notification ''late'' 99 (push_all (take 49 fifty_one) (init_tracker zero_memory))) =
     map notification_of (take 49 fifty_one) @
     [\<lparr>message = ''late'', timestamp = 99, is_read = 0\<rparr>] \<and>
   0 \<le> notification_count (init_tracker zero_memory) \<and>
   notification_count (init_tracker zero_memory) < 50 \<and>
   notification_count (add_notification ''late'' 99 (init_tracker zero_memory)) = 2 \<and>
   length fifty_one = 51 \<and>
   notification_list (push_all fifty_one (init_tracker zero_memory)) =
     map notification_of (drop 1 fifty_one) \<and>
   notification_count (push_all fifty_one (init_tracker zero_memory)) = 50"
proof -
  have len: "length fifty_one = 51" by (simp add: fifty_one_def)
  have full: "notification_count (push_all (take 49 fifty_one) (init_tracker zero_memory)) = 50"
    by (simp add: push_all_fresh len)
  have log: "notification_list (push_all (take 49 fifty_one) (init_tracker zero_memory)) =
      (notifications zero_memory 0)\<lparr>message := ''Tracker initialized with default categories.''\<rparr> #
      map notification_of (take 49 fifty_one)"
    by (simp add: push_all_fresh len keep_last_def)
  show ?thesis
    using notification_log_fifo
        [of "push_all (take 49 fifty_one) (init_tracker zero_memory)" "''late''" 99
          fifty_one zero_memory]
      notification_log_fifo [of "init_tracker zero_memory" "''late''" 99 fifty_one zero_memory]
    by (simp add: len full log init_facts strncpy_def)
qed

text \<open>
  C6. With 1000 transactions stored, \<^verbatim>\<open>add_income\<close> and \<^verbatim>\<open>add_expense\<close> print
  "Transaction limit reached!" and return: the trace holds no read, and the tracker that
  comes back is the one that went in.
\<close>

theorem full_ledger_rejects:
  "transaction_count tracker = 1000 \<Longrightarrow>
   add_income a d now tracker = ([Printf ''Transaction limit reached!\<newline>'' []], tracker) \<and>
   add_expense a c d now tracker = ([Printf ''Transaction limit reached!\<newline>'' []], tracker)"
  by (simp add: add_income_def add_expense_def)

theorem full_ledger_rejects_witness:
  "transaction_count (incomes 1000 (init_tracker zero_memory)) = 1000 \<and>
   add_income (Finite 5) ''late'' 9 (incomes 1000 (init_tracker zero_memory)) =
     ([Printf ''Transaction limit reached!\<newline>'' []], incomes 1000 (init_tracker zero_memory)) \<and>
   add_expense (Finite 5) 4 ''late'' 9 (incomes 1000 (init_tracker zero_memory)) =
     ([Printf ''Transaction limit reached!\<newline>'' []], incomes 1000 (init_tracker zero_memory))"
proof -
  have full: "transaction_count (incomes 1000 (init_tracker zero_memory)) = 1000"
    using incomes_count [of "init_tracker zero_memory" 1000] by (simp add: init_facts)
  from full_ledger_rejects [OF full] full show ?thesis by simp
qed

text \<open>
  C7. After \<^verbatim>\<open>init_tracker\<close>, whatever the memory held before, the ledger has the eight
  categories Salary, Freelance, Investments, Food, Transport, Utilities, Rent and
  Entertainment in this order, each with limit 0 and spent 0, no transaction, one
  notification with the message "Tracker initialized with default categories.", and both
  totals 0.
\<close>

theorem init_tracker_fresh:
  "category_count (init_tracker tracker0) = 8 \<and>
   category_list (init_tracker tracker0) =
     [\<lparr>name = ''Salary'', budget_limit = Finite 0, current_spent = Finite 0\<rparr>,
      \<lparr>name = ''Freelance'', budget_limit = Finite 0, current_spent = Finite 0\<rparr>,
      \<lparr>name = ''Investments'', budget_limit = Finite 0, current_spent = Finite 0\<rparr>,
      \<lparr>name = ''Food'', budget_limit = Finite 0, current_spent = Finite 0\<rparr>,
      \<lparr>name = ''Transport'', budget_limit = Finite 0, current_spent = Finite 0\<rparr>,
      \<lparr>name = ''Utilities'', budget_limit = Finite 0, current_spent = Finite 0\<rparr>,
      \<lparr>name = ''Rent'', budget_limit = Finite 0, current_spent = Finite 0\<rparr>,
      \<lparr>name = ''Entertainment'', budget_limit = Finite 0, current_spent = Finite 0\<rparr>] \<and>
   transaction_count (init_tracker tracker0) = 0 \<and>
   transaction_list (init_tracker tracker0) = [] \<and>
   notification_count (init_tracker tracker0) = 1 \<and>
   map message (notification_list (init_tracker tracker0)) =
     [''Tracker initialized with default categories.''] \<and>
   total_income (init_tracker tracker0) = Finite 0 \<and>
   total_expenses (init_tracker tracker0) = Finite 0"
  by (simp add: init_facts init_categories init_notifications default_categories_def
      transaction_list_def zero_float_def)

text \<open>
  C8, as the code has it. When every amount read for an expense and every limit read by
  \<^verbatim>\<open>set_budget\<close> is at least 0 (so none is not-a-number), every category has
  \<open>current_spent \<ge> 0\<close> and \<open>budget_limit \<ge> 0\<close> after any run of the four operations from a
  freshly initialized ledger.
\<close>

theorem categories_stay_nonneg:
  "every_call nonneg_inputs calls (init_tracker tracker0) \<Longrightarrow>
   list_all (\<lambda>c. 0 \<le> current_spent c \<and> 0 \<le> budget_limit c)
     (category_list (run calls (init_tracker tracker0)))"
  using categories_nonneg_run [of calls tracker0] by (simp add: categories_nonneg_def)

theorem categories_stay_nonneg_witness:
  "every_call nonneg_inputs sample_calls (init_tracker zero_memory) \<and>
   list_all (\<lambda>c. 0 \<le> current_spent c \<and> 0 \<le> budget_limit c)
     (category_list (run sample_calls (init_tracker zero_memory))) \<and>
   map current_spent (category_list (run sample_calls (init_tracker zero_memory))) =
     [Finite 0, Finite 0, Finite 0, Finite 110, Finite 0, Finite 0, Finite 0, Finite 0] \<and>
   map budget_limit (category_list (run sample_calls (init_tracker zero_memory))) =
     replicate 8 (Finite 100)"
proof -
  have inputs: "every_call nonneg_inputs sample_calls (init_tracker zero_memory)"
    by code_simp
  have "map current_spent (category_list (run sample_calls (init_tracker zero_memory))) =
     [Finite 0, Finite 0, Finite 0, Finite 110, Finite 0, Finite 0, Finite 0, Finite 0]"
    "map budget_limit (category_list (run sample_calls (init_tracker zero_memory))) =
     replicate 8 (Finite 100)"
    by (code_simp, code_simp)
  with categories_stay_nonneg [OF inputs] inputs show ?thesis by simp
qed

text \<open>
  C8 as it is written holds for every run. Neither \<^verbatim>\<open>get_float_input\<close> nor the operations
  check a sign: after \<open>-5\<close> was read for every limit and \<open>-10\<close> for an expense on Food, the
  category has a negative limit and a negative \<open>current_spent\<close>.
\<close>

theorem categories_nonneg_counterexample:
  "budget_limit (categories (run negative_calls (init_tracker zero_memory)) 3) = Finite (- 5) \<and>
   current_spent (categories (run negative_calls (init_tracker zero_memory)) 3) = Finite (- 10) \<and>
   category_count (run negative_calls (init_tracker zero_memory)) = 8 \<and>
   \<not> 0 \<le> budget_limit (categories (run negative_calls (init_tracker zero_memory)) 3) \<and>
   \<not> 0 \<le> current_spent (categories (run negative_calls (init_tracker zero_memory)) 3)"
  by code_simp

text \<open>
  C9. \<^verbatim>\<open>add_expense\<close> never writes the notification log: for every input, the
  notifications and their counter are after the call what they were before it. The
  over-budget warning is a line of the trace only.
\<close>

theorem add_expense_keeps_notifications:
  "notifications (snd (add_expense a c d now tracker)) = notifications tracker \<and>
   notification_count (snd (add_expense a c d now tracker)) = notification_count tracker \<and>
   notification_list (snd (add_expense a c d now tracker)) = notification_list tracker"
  by (simp add: add_expense_def Let_def notification_list_def)

text \<open>
  C10. A call of \<^verbatim>\<open>add_income\<close> on a ledger with fewer than 1000 transactions stores
  one transaction in the next free slot and adds the amount to \<open>total_income\<close>. Nothing else
  changes: \<open>total_expenses\<close>, the categories (name, limit and spent) and their counter, the
  notifications and their counter are what they were.
\<close>

theorem add_income_frame:
  "0 \<le> transaction_count tracker \<Longrightarrow> transaction_count tracker < 1000 \<Longrightarrow>
   transactions (snd (add_income a d now tracker)) =
     (transactions tracker)(transaction_count tracker :=
        \<lparr>amount = a, description = d, category = ''Income'', timestamp = now, is_income = 1\<rparr>) \<and>
   transaction_count (snd (add_income a d now tracker)) = transaction_count tracker + 1 \<and>
   transaction_list (snd (add_income a d now tracker)) =
     transaction_list tracker @
     [\<lparr>amount = a, description = d, category = ''Income'', timestamp = now, is_income = 1\<rparr>] \<and>
   total_income (snd (add_income a d now tracker)) = total_income tracker + a \<and>
   total_expenses (snd (add_income a d now tracker)) = total_expenses tracker \<and>
   categories (snd (add_income a d now tracker)) = categories tracker \<and>
   category_count (snd (add_income a d now tracker)) = category_count tracker \<and>
   notifications (snd (add_income a d now tracker)) = notifications tracker \<and>
   notification_count (snd (add_income a d now tracker)) = notification_count tracker"
  by (simp add: add_income_state transaction_list_def upto_rec2)

theorem add_income_frame_witness:
  "0 \<le> transaction_count (init_tracker zero_memory) \<and>
   transaction_count (init_tracker zero_memory) < 1000 \<and>
   transaction_list (snd (add_income (Finite 50) ''bonus'' 3 (init_tracker zero_memory))) =
     [\<lparr>amount = Finite 50, description = ''bonus'', category = ''Income'',
       timestamp = 3, is_income = 1\<rparr>] \<and>
   total_income (snd (add_income (Finite 50) ''bonus'' 3 (init_tracker zero_memory))) = Finite 50 \<and>
   total_expenses (snd (add_income (Finite 50) ''bonus'' 3 (init_tracker zero_memory))) = Finite 0 \<and>
   category_count (snd (add_income (Finite 50) ''bonus'' 3 (init_tracker zero_memory))) = 8 \<and>
   notification_count (snd (add_income (Finite 50) ''bonus'' 3 (init_tracker zero_memory))) = 1"
  using add_income_frame [of "init_tracker zero_memory" "Finite 50" "''bonus''" 3]
  by (simp add: init_facts float_examples init_transaction_list)

end
